theory Spec2Isabelle
  imports Complex_Main "HOL-Library.Sublist"
begin

section \<open>Strings\<close>

text \<open>
  The scraper works on Python \<open>str\<close> values. A text is modelled as a \<open>string\<close> holding one
  \<open>char\<close> per Python character, the character being its code point (the texts covered are
  those whose code points lie below 256, which includes the superscript two of the size unit).
\<close>

definition startswith :: "string \<Rightarrow> string \<Rightarrow> bool" where
  \<comment> \<open>\<open>s.startswith(p)\<close>\<close>
  "startswith s p = (take (length p) s = p)"

fun contains :: "string \<Rightarrow> string \<Rightarrow> bool" where
  \<comment> \<open>\<open>sub in s\<close>\<close>
  "contains sub [] = (sub = [])"
| "contains sub (c # cs) = (startswith (c # cs) sub \<or> contains sub cs)"

definition replace :: "char \<Rightarrow> string \<Rightarrow> string \<Rightarrow> string" where
  \<comment> \<open>\<open>s.replace(old, new)\<close> for a one-character \<open>old\<close>\<close>
  "replace old new s = concat (map (\<lambda>c. if c = old then new else [c]) s)"

definition lower_chr :: "char \<Rightarrow> char" where
  \<comment> \<open>\<open>c.lower()\<close>: A-Z, and the capital letters of the range 0xC0-0xDE but the multiplication sign\<close>
  "lower_chr c =
     (let n = (of_char c :: int) in
      if (65 \<le> n \<and> n \<le> 90) \<or> (192 \<le> n \<and> n \<le> 222 \<and> n \<noteq> 215)
      then char_of (n + 32) else c)"

definition lower :: "string \<Rightarrow> string" where
  "lower s = map lower_chr s"

definition isdigit :: "char \<Rightarrow> bool" where
  \<comment> \<open>what \<open>\d\<close> matches\<close>
  "isdigit c = (let n = (of_char c :: int) in 48 \<le> n \<and> n \<le> 57)"

definition isspace :: "char \<Rightarrow> bool" where
  \<comment> \<open>what \<open>\s\<close> matches: tab to carriage return, the separators 0x1C-0x1F, space,
     next line (0x85) and no-break space (0xA0)\<close>
  "isspace c =
     (let n = (of_char c :: int) in
      (9 \<le> n \<and> n \<le> 13) \<or> (28 \<le> n \<and> n \<le> 32) \<or> n = 133 \<or> n = 160)"

fun digits_value :: "string \<Rightarrow> int \<Rightarrow> int" where
  "digits_value [] acc = acc"
| "digits_value (c # cs) acc = digits_value cs (10 * acc + (of_char c - 48))"

definition py_int :: "string \<Rightarrow> int option" where
  \<comment> \<open>\<open>int(s)\<close> for the strings that reach it here: digits and white space, a digit at both
     ends. \<open>None\<close> stands for the \<open>ValueError\<close> raised when a character is not a digit.\<close>
  "py_int s = (if s \<noteq> [] \<and> list_all isdigit s then Some (digits_value s 0) else None)"

function str_digits :: "int \<Rightarrow> string" where
  \<comment> \<open>the decimal digits of a number that is not negative\<close>
  "str_digits n =
     (if n < 10 then [char_of (48 + n)]
      else str_digits (n div 10) @ [char_of (48 + n mod 10)])"
  by pat_completeness auto
termination
  by (relation "measure nat") auto

definition str_int :: "int \<Rightarrow> string" where
  \<comment> \<open>\<open>str(i)\<close>, as an f-string prints an \<open>int\<close>\<close>
  "str_int i = (if i < 0 then CHR ''-'' # str_digits (- i) else str_digits i)"

section \<open>Regular expressions\<close>

text \<open>
  The patterns of the scraper are matched by \<open>re.search\<close>, a backtracking matcher: the
  leftmost start position that admits a match wins, and at that position the first match in
  priority order (greedy repetition tries the longest first, an alternation its left branch
  first). \<open>rmatch\<close> lists the matches of a pattern at the head of a text in that priority
  order, each with the text of group 1 (if the group took part) and the unread rest.
\<close>

datatype cls =
    Lit char
  | Digit
  | Space
  | OneOf "cls list"
  | NoneOf "char list"

datatype regex =
    Eps
  | Atom cls
  | Seq regex regex
  | Alt regex regex
  | Opt regex
  | Star regex
  | Grp regex

fun cmatch :: "bool \<Rightarrow> cls \<Rightarrow> char \<Rightarrow> bool" where
  \<comment> \<open>the flag is \<open>re.IGNORECASE\<close>\<close>
  "cmatch ic (Lit a) c = (if ic then lower_chr a = lower_chr c else a = c)"
| "cmatch ic Digit c = isdigit c"
| "cmatch ic Space c = isspace c"
| "cmatch ic (OneOf cs) c = list_ex (\<lambda>k. cmatch ic k c) cs"
| "cmatch ic (NoneOf as) c = (\<not> list_ex (\<lambda>a. if ic then lower_chr a = lower_chr c else a = c) as)"

fun rmatch :: "bool \<Rightarrow> regex \<Rightarrow> string \<Rightarrow> (string option \<times> string) list" where
  "rmatch ic Eps s = [(None, s)]"
| "rmatch ic (Atom k) s =
     (case s of [] \<Rightarrow> [] | c # cs \<Rightarrow> if cmatch ic k c then [(None, cs)] else [])"
| "rmatch ic (Seq r1 r2) s =
     concat (map (\<lambda>m1. map (\<lambda>m2. (case fst m2 of None \<Rightarrow> fst m1 | Some g \<Rightarrow> Some g, snd m2))
                             (rmatch ic r2 (snd m1)))
                 (rmatch ic r1 s))"
| "rmatch ic (Alt r1 r2) s = rmatch ic r1 s @ rmatch ic r2 s"
| "rmatch ic (Opt r) s = rmatch ic r s @ [(None, s)]"
| "rmatch ic (Star r) s =
     concat (map (\<lambda>m1. if length (snd m1) < length s
                        then map (\<lambda>m2. (case fst m2 of None \<Rightarrow> fst m1 | Some g \<Rightarrow> Some g, snd m2))
                                 (rmatch ic (Star r) (snd m1))
                        else [])
                 (rmatch ic r s))
     @ [(None, s)]"
| "rmatch ic (Grp r) s =
     map (\<lambda>m. (Some (take (length s - length (snd m)) s), snd m)) (rmatch ic r s)"

fun re_search :: "bool \<Rightarrow> regex \<Rightarrow> string \<Rightarrow> string option option" where
  \<comment> \<open>\<open>re.search(r, s)\<close>: \<open>None\<close> when nothing matches, else the text of group 1\<close>
  "re_search ic r [] = (case rmatch ic r [] of [] \<Rightarrow> None | m # _ \<Rightarrow> Some (fst m))"
| "re_search ic r (c # cs) =
     (case rmatch ic r (c # cs) of [] \<Rightarrow> re_search ic r cs | m # _ \<Rightarrow> Some (fst m))"

definition group1 :: "string option \<Rightarrow> string" where
  \<comment> \<open>\<open>m.group(1)\<close> of a match whose group took part\<close>
  "group1 g = (case g of None \<Rightarrow> [] | Some t \<Rightarrow> t)"

fun lits :: "string \<Rightarrow> regex" where
  \<comment> \<open>a run of literal characters\<close>
  "lits [] = Eps"
| "lits [c] = Atom (Lit c)"
| "lits (c # cs) = Seq (Atom (Lit c)) (lits cs)"

definition Plus :: "regex \<Rightarrow> regex" where
  "Plus r = Seq r (Star r)"

fun Times :: "nat \<Rightarrow> regex \<Rightarrow> regex" where
  \<comment> \<open>\<open>r{n}\<close>\<close>
  "Times 0 r = Eps"
| "Times (Suc 0) r = r"
| "Times (Suc n) r = Seq r (Times n r)"

fun UpTo :: "nat \<Rightarrow> regex \<Rightarrow> regex" where
  \<comment> \<open>\<open>r{0,n}\<close>, greedy\<close>
  "UpTo 0 r = Eps"
| "UpTo (Suc n) r = Opt (Seq r (UpTo n r))"

definition price_re :: regex where
  \<comment> \<open>\<^verbatim>\<open>R\s*(\d{1,3}(?:[\s,]*\d{3})+)\<close>\<close>
  "price_re =
     Seq (Atom (Lit CHR ''R'')) (Seq (Star (Atom Space))
       (Grp (Seq (Seq (Atom Digit) (UpTo 2 (Atom Digit)))
                 (Plus (Seq (Star (Atom (OneOf [Space, Lit CHR '','']))) (Times 3 (Atom Digit)))))))"

definition bed_re :: regex where
  \<comment> \<open>\<^verbatim>\<open>(\d+)\s*[Bb]ed\<close>\<close>
  "bed_re =
     Seq (Grp (Plus (Atom Digit))) (Seq (Star (Atom Space))
       (Seq (Atom (OneOf [Lit CHR ''B'', Lit CHR ''b''])) (lits ''ed'')))"

definition bath_re :: regex where
  \<comment> \<open>\<^verbatim>\<open>(\d+)\s*[Bb]ath\<close>\<close>
  "bath_re =
     Seq (Grp (Plus (Atom Digit))) (Seq (Star (Atom Space))
       (Seq (Atom (OneOf [Lit CHR ''B'', Lit CHR ''b''])) (lits ''ath'')))"

definition size_re :: regex where
  \<comment> \<open>\<^verbatim>\<open>(\d+)\s*m[(superscript two)2]\<close>, searched with \<open>re.IGNORECASE\<close>\<close>
  "size_re =
     Seq (Grp (Plus (Atom Digit))) (Seq (Star (Atom Space))
       (Seq (Atom (Lit CHR ''m'')) (Atom (OneOf [Lit (CHR 0xB2), Lit CHR ''2'']))))"

definition bg_re :: regex where
  \<comment> \<open>\<^verbatim>\<open>url\(["']?([^"']+)["']?\)\<close>\<close>
  "bg_re =
     Seq (lits ''url('') (Seq (Opt (Atom (OneOf [Lit (CHR 0x22), Lit (CHR 0x27)])))
       (Seq (Grp (Plus (Atom (NoneOf [CHR 0x22, CHR 0x27]))))
         (Seq (Opt (Atom (OneOf [Lit (CHR 0x22), Lit (CHR 0x27)]))) (Atom (Lit CHR '')'')))))"

definition sep :: regex where
  \<comment> \<open>\<^verbatim>\<open>[\s-]?\<close>\<close>
  "sep = Opt (Atom (OneOf [Space, Lit CHR ''-'']))"

definition feature_patterns :: "(regex \<times> string) list" where
  "feature_patterns =
     [(lits ''pool'', ''Pool''),
      (Alt (lits ''garage'') (lits ''parking''), ''Parking''),
      (lits ''garden'', ''Garden''),
      (lits ''security'', ''Security''),
      (lits ''balcony'', ''Balcony''),
      (Seq (lits ''pet'') (Seq sep (lits ''friendly'')), ''Pet Friendly''),
      (lits ''furnished'', ''Furnished''),
      (Alt (Seq (lits ''sea'') (Seq sep (lits ''view'')))
           (Seq (lits ''ocean'') (Seq sep (lits ''view''))), ''Sea Views''),
      (Seq (lits ''mountain'') (Seq sep (lits ''view'')), ''Mountain Views'')]"

section \<open>Listing fragments\<close>

text \<open>
  The page is parsed by BeautifulSoup, a library outside the repository. A fragment is the
  handle of one tag together with what the scraper reads from it through the library; each
  field below is the result of one library call on the tag.
\<close>

datatype json =
    JNull
  | JBool bool
  | JNum rat
  | JStr string
  | JArr "json list"
  | JObj "(string \<times> json) list"

text \<open>
  \<open>json\<close> is a decoded JSON value as \<open>json.loads\<close> returns it: \<open>None\<close>, a \<open>bool\<close>, a
  finite number by its value, a \<open>str\<close>, a \<open>list\<close>, or a \<open>dict\<close> as its items in order.
\<close>

record img =
  img_class :: "string list"     \<comment> \<open>\<open>img.get('class', [])\<close>\<close>
  data_src :: "string option"    \<comment> \<open>\<open>img.get('data-src')\<close>\<close>
  src :: "string option"         \<comment> \<open>\<open>img.get('src')\<close>\<close>

datatype element = Element
  (name: string)                      \<comment> \<open>\<open>element.name\<close>\<close>
  (parent: "element option")          \<comment> \<open>\<open>element.parent\<close>\<close>
  (get_text: string)                  \<comment> \<open>\<open>element.get_text()\<close>\<close>
  (get_text_sep: string)              \<comment> \<open>\<open>element.get_text(separator=' ', strip=True)\<close>\<close>
  (anchors: "string list")            \<comment> \<open>the \<open>href\<close> of every \<open>a\<close> tag below the element that
                                           has one, in document order; \<open>element.find('a', href=True)\<close>
                                           is the first\<close>
  (img_tags: "img list")              \<comment> \<open>\<open>element.find_all('img')\<close>\<close>
  (styles: "string list")             \<comment> \<open>the \<open>style\<close> of every tag below the element that has
                                           one, in document order\<close>
  (json_scripts: "json option list")  \<comment> \<open>for every tag of
                                           \<open>element.find_all('script', type='application/json')\<close>,
                                           \<open>json.loads(script.string)\<close>, \<open>None\<close> when it raises\<close>

section \<open>Image Resolver\<close>

datatype error = TypeError

definition BASE :: string where
  "BASE = ''https://www.property24.com''"

definition full_url :: "string \<Rightarrow> string" where
  \<comment> \<open>the "ensure full URL" step of both tag strategies\<close>
  "full_url img_url =
     (if \<not> startswith img_url ''http''
      then (if startswith img_url ''//'' then ''https:'' @ img_url else BASE @ img_url)
      else img_url)"

definition img_tag_url :: "img \<Rightarrow> string list" where
  \<comment> \<open>one turn of the loop of method 1: what the tag appends to \<open>images\<close>. The test
     \<open>'icon' in str(img.get('class', []))\<close> reads the printed list of class names; it holds
     exactly when one of the names contains \<open>icon\<close>. \<open>a or b\<close> takes \<open>b\<close> when \<open>a\<close> is
     missing or empty.\<close>
  "img_tag_url i =
     (if list_ex (contains ''icon'') (img_class i) then []
      else
        (case (case data_src i of
                 Some d \<Rightarrow> if d \<noteq> [] then Some d else src i
               | None \<Rightarrow> src i) of
           None \<Rightarrow> []
         | Some img_url \<Rightarrow>
             if img_url = [] then []
             else if contains ''data:image'' img_url \<or> contains ''placeholder'' img_url then []
             else
               (let img_url = full_url img_url in
                if list_ex (\<lambda>pattern. contains pattern img_url)
                     [''property24'', ''listing'', ''property'', ''p24'']
                then [img_url] else [])))"

definition method1 :: "element \<Rightarrow> string list" where
  "method1 e = concat (map img_tag_url (img_tags e))"

definition bg_url :: "string \<Rightarrow> string list" where
  \<comment> \<open>one turn of the loop of method 2\<close>
  "bg_url style =
     (case re_search False bg_re style of
        None \<Rightarrow> []
      | Some g \<Rightarrow>
          (let img_url = full_url (group1 g) in
           if contains ''property'' img_url \<or> contains ''listing'' img_url then [img_url] else []))"

definition method2 :: "element \<Rightarrow> string list" where
  \<comment> \<open>\<open>find_all(style=re.compile('background-image'))\<close> keeps the tags whose style the
     pattern is found in\<close>
  "method2 e = concat (map bg_url (filter (contains ''background-image'') (styles e)))"

definition image_keys :: "string list" where
  "image_keys = [''images'', ''gallery'', ''photos'', ''imageUrl'', ''image'']"

definition gallery_item :: "json \<Rightarrow> json list" where
  \<comment> \<open>one item of a list found under an image key\<close>
  "gallery_item item =
     (case item of
        JStr s \<Rightarrow> if startswith s ''http'' then [JStr s] else []
      | JObj kvs \<Rightarrow> (case map_of kvs ''url'' of Some u \<Rightarrow> [u] | None \<Rightarrow> [])
      | _ \<Rightarrow> [])"

fun extract_images_from_json :: "json \<Rightarrow> nat \<Rightarrow> json list" where
  \<comment> \<open>\<open>_extract_images_from_json(data, images, depth)\<close>: the values appended to \<open>images\<close>\<close>
  "extract_images_from_json (JObj kvs) depth =
     (if depth > 5 then []
      else concat (map (\<lambda>kv.
             if fst kv \<in> set image_keys
             then (case snd kv of JArr items \<Rightarrow> concat (map gallery_item items) | _ \<Rightarrow> [])
             else (case snd kv of
                     JObj kvs' \<Rightarrow> extract_images_from_json (snd kv) (depth + 1)
                   | JArr items \<Rightarrow> extract_images_from_json (snd kv) (depth + 1)
                   | _ \<Rightarrow> [])) kvs))"
| "extract_images_from_json (JArr items) depth =
     (if depth > 5 then []
      else concat (map (\<lambda>item.
             case item of JObj kvs \<Rightarrow> extract_images_from_json item (depth + 1) | _ \<Rightarrow> []) items))"
| "extract_images_from_json _ depth = []"

definition script_images :: "json option \<Rightarrow> json list" where
  \<comment> \<open>one turn of the loop of method 3; a failing \<open>json.loads\<close> is swallowed by the inner
     \<open>try\<close>\<close>
  "script_images loaded =
     (case loaded of
        None \<Rightarrow> []
      | Some data \<Rightarrow> (case data of JObj kvs \<Rightarrow> extract_images_from_json data 0 | _ \<Rightarrow> []))"

definition method3 :: "element \<Rightarrow> json list" where
  "method3 e = concat (map script_images (json_scripts e))"

fun hashable :: "json \<Rightarrow> bool" where
  \<comment> \<open>a \<open>list\<close> or a \<open>dict\<close> cannot be a member of a \<open>set\<close>: the test raises \<open>TypeError\<close>\<close>
  "hashable (JArr _) = False"
| "hashable (JObj _) = False"
| "hashable _ = True"

fun py_key :: "json \<Rightarrow> json" where
  \<comment> \<open>Python's \<open>==\<close> on hashable values is equality up to \<open>True == 1\<close> and \<open>False == 0\<close>\<close>
  "py_key (JBool b) = JNum (if b then 1 else 0)"
| "py_key v = v"

definition py_eq :: "json \<Rightarrow> json \<Rightarrow> bool" where
  "py_eq a b = (py_key a = py_key b)"

definition py_in :: "json \<Rightarrow> json set \<Rightarrow> bool" where
  \<comment> \<open>\<open>img in seen\<close>\<close>
  "py_in a S = (\<exists>b\<in>S. py_eq a b)"

fun remove_duplicates :: "json list \<Rightarrow> json set \<Rightarrow> json list \<Rightarrow> error + json list" where
  \<comment> \<open>the loop "remove duplicates while preserving order", from \<open>seen\<close> and \<open>unique_images\<close>\<close>
  "remove_duplicates [] seen unique_images = Inr unique_images"
| "remove_duplicates (img # images) seen unique_images =
     (if \<not> hashable img then Inl TypeError
      else if \<not> py_in img seen
      then remove_duplicates images (insert img seen) (unique_images @ [img])
      else remove_duplicates images seen unique_images)"

definition all_images :: "element \<Rightarrow> json list" where
  \<comment> \<open>\<open>images\<close> after the three methods\<close>
  "all_images e = map JStr (method1 e) @ map JStr (method2 e) @ method3 e"

definition extract_property_images_body :: "element \<Rightarrow> error + json list" where
  \<comment> \<open>the body of the outer \<open>try\<close>\<close>
  "extract_property_images_body e =
     (case remove_duplicates (all_images e) {} [] of
        Inl err \<Rightarrow> Inl err
      | Inr unique_images \<Rightarrow> Inr (take 5 unique_images))"

definition extract_property_images :: "element \<Rightarrow> json list" where
  \<comment> \<open>\<open>except Exception: return []\<close>\<close>
  "extract_property_images e =
     (case extract_property_images_body e of Inl err \<Rightarrow> [] | Inr images \<Rightarrow> images)"

section \<open>Field Extractor\<close>

text \<open>
  The record is the \<open>property_data\<close> dictionary: a key that may be missing is an \<open>option\<close>
  field. \<open>price\<close> can be missing (\<open>None\<close>) or present with the value \<open>None\<close>
  (\<open>Some None\<close>); \<open>type\<close> and \<open>title\<close> are set on every path that returns a dictionary.
\<close>

record property_data =
  price :: "int option option"
  ptype :: string                       \<comment> \<open>the key \<open>'type'\<close>\<close>
  bedrooms :: "int option"
  bathrooms :: "int option"
  size_sqm :: "int option"
  url :: "string option"
  images :: "json list option"
  highlights :: "string list option"
  title :: string
  neighborhood_vibe :: "string option"
  area :: "string option"
  selector_used :: "string option"

definition match_int :: "bool \<Rightarrow> regex \<Rightarrow> string \<Rightarrow> int option" where
  \<comment> \<open>\<open>m = re.search(r, text); if m: ... = int(m.group(1))\<close>, group 1 being \<open>\d+\<close>\<close>
  "match_int ic r text =
     (case re_search ic r text of
        None \<Rightarrow> None
      | Some g \<Rightarrow> Some (digits_value (group1 g) 0))"

definition property_type :: "string \<Rightarrow> string option \<Rightarrow> string" where
  \<comment> \<open>the "Property type" step; the second argument is \<open>property_data.get('type')\<close> so far\<close>
  "property_type text_lower earlier =
     (if contains ''apartment'' text_lower \<or> contains ''flat'' text_lower then ''Apartment''
      else if contains ''house'' text_lower then ''House''
      else if contains ''townhouse'' text_lower then ''Townhouse''
      else (case earlier of None \<Rightarrow> ''Property'' | Some t \<Rightarrow> t))"

definition extract_url :: "element \<Rightarrow> string option" where
  \<comment> \<open>the "Extract URL" step\<close>
  "extract_url element =
     (case anchors element of
        [] \<Rightarrow> None
      | href # _ \<Rightarrow>
          if contains ''/for-sale/'' href
          then Some (if startswith href ''http'' then href else BASE @ href)
          else None)"

definition extract_features :: "string \<Rightarrow> string list" where
  "extract_features text_lower =
     map snd (filter (\<lambda>pf. re_search False (fst pf) text_lower \<noteq> None) feature_patterns)"

definition make_title :: "int option \<Rightarrow> string \<Rightarrow> string" where
  \<comment> \<open>\<open>if property_data.get('bedrooms')\<close> is false for a missing key and for 0\<close>
  "make_title beds t =
     (case beds of
        None \<Rightarrow> t
      | Some b \<Rightarrow> if b \<noteq> 0 then str_int b @ '' Bedroom '' @ t else t)"

definition extract_property_data_enhanced :: "element \<Rightarrow> bool \<Rightarrow> property_data option" where
  "extract_property_data_enhanced element extract_images =
     (let text = get_text_sep element in
      if length text < 30 \<or> length text > 2000 then None
      else
        (case (case re_search False price_re text of
                 Some g \<Rightarrow>
                   Some (case py_int (replace CHR '' '' [] (replace CHR '','' [] (group1 g))) of
                           Some p \<Rightarrow> Some (Some p)
                         | None \<Rightarrow> None,
                         None)
               | None \<Rightarrow>
                   if contains ''development'' (lower text)
                   then Some (Some None, Some ''Development'')
                   else None) of
           None \<Rightarrow> None
         | Some (price_entry, type_entry) \<Rightarrow>
             (let beds = match_int False bed_re text;
                  baths = match_int False bath_re text;
                  size = match_int True size_re text;
                  text_lower = lower text;
                  t = property_type text_lower type_entry;
                  imgs = (if extract_images
                          then (let images = extract_property_images element
                                in if images \<noteq> [] then Some images else None)
                          else None);
                  features = extract_features text_lower
              in Some \<lparr>price = price_entry,
                       ptype = t,
                       bedrooms = beds,
                       bathrooms = baths,
                       size_sqm = size,
                       url = extract_url element,
                       images = imgs,
                       highlights = (if features \<noteq> [] then Some features else None),
                       title = make_title beds t,
                       neighborhood_vibe =
                         (if contains ''walking distance'' text_lower
                          then Some ''Walking distance to amenities'' else None),
                       area = None,
                       selector_used = None\<rparr>)))"

section \<open>Page Assembler\<close>

type_synonym soup = "string \<Rightarrow> element list"
  \<comment> \<open>the parsed page, as \<open>soup.select(selector)\<close> answers\<close>

type_synonym dedup_key = "int option \<times> int option \<times> int option"

definition selectors :: "string list" where
  \<open>selectors =
     [''div[class*="listing"]'',
      ''div[class*="p24_"]'',
      ''div[class*="tile"]'',
      ''div[class*="property"]'',
      ''article[class*="listing"]'',
      ''div[class*="result"]'',
      ''.p24_regularTile'',
      ''.js_listingTile'',
      ''[data-listing-number]'',
      ''div[class*="sc_listingTile"]'',
      ''div[class*="ListingTile"]'',
      ''div[class*="propertyTile"]'',
      ''a[href*="/for-sale/"][href*="plId="]'']\<close>

fun climb :: "element option \<Rightarrow> element option" where
  \<comment> \<open>\<open>while container and len(container.get_text()) < 50: container = container.parent\<close>\<close>
  "climb None = None"
| "climb (Some (Element n p t ts as is ss js)) =
     (if length t < 50 then climb p else Some (Element n p t ts as is ss js))"

definition container_of :: "element \<Rightarrow> element option" where
  "container_of element =
     (if name element = ''a'' then climb (parent element) else Some element)"

definition get_price :: "property_data \<Rightarrow> int option" where
  \<comment> \<open>\<open>prop.get('price')\<close>\<close>
  "get_price prop = (case price prop of None \<Rightarrow> None | Some v \<Rightarrow> v)"

definition key_of :: "property_data \<Rightarrow> dedup_key" where
  "key_of prop = (get_price prop, bedrooms prop, size_sqm prop)"

definition assemble_element ::
  "string \<Rightarrow> bool \<Rightarrow> string \<Rightarrow> element \<Rightarrow>
   property_data list \<times> dedup_key set \<Rightarrow> property_data list \<times> dedup_key set" where
  \<comment> \<open>one turn of the inner loop, on \<open>all_properties\<close> and \<open>seen_prices_and_beds\<close>;
     \<open>if container\<close> fails for \<open>None\<close> only, and \<open>if prop\<close> for \<open>None\<close> only, a
     returned dictionary never being empty\<close>
  "assemble_element area_name extract_images selector element acc =
     (case container_of element of
        None \<Rightarrow> acc
      | Some container \<Rightarrow>
          (case extract_property_data_enhanced container extract_images of
             None \<Rightarrow> acc
           | Some prop \<Rightarrow>
               (let key = key_of prop in
                if key \<notin> snd acc
                then (fst acc @ [prop\<lparr>area := Some area_name, selector_used := Some selector\<rparr>],
                      insert key (snd acc))
                else acc)))"

definition assemble_selector ::
  "soup \<Rightarrow> string \<Rightarrow> bool \<Rightarrow> string \<Rightarrow>
   property_data list \<times> dedup_key set \<Rightarrow> property_data list \<times> dedup_key set" where
  \<comment> \<open>one turn of the outer loop\<close>
  "assemble_selector page area_name extract_images selector acc =
     fold (assemble_element area_name extract_images selector) (page selector) acc"

definition extract_all_properties_from_page :: "soup \<Rightarrow> string \<Rightarrow> bool \<Rightarrow> property_data list" where
  "extract_all_properties_from_page page area_name extract_images =
     fst (fold (assemble_selector page area_name extract_images) selectors ([], {}))"

section \<open>Pagination Controller\<close>

definition PROPERTY24_AREA_CODES :: "(string \<times> int) list" where
  "PROPERTY24_AREA_CODES =
     [(''sea-point'', 11021),
      (''green-point'', 11017),
      (''camps-bay'', 11014),
      (''clifton'', 11015),
      (''fresnaye'', 11016),
      (''mouille-point'', 11018),
      (''de-waterkant'', 9141),
      (''gardens'', 9145),
      (''oranjezicht'', 9155),
      (''tamboerskloof'', 9163),
      (''vredehoek'', 9166)]"

text \<open>
  The transport is outside the core. \<open>response\<close> is what one \<open>session.get\<close> gives: an
  exception, or a status code with the page that \<open>BeautifulSoup\<close> parses from the body.
\<close>

datatype response = Raised | Response int soup

record scrape_args =
  area_arg :: string                  \<comment> \<open>\<open>area\<close>\<close>
  transaction_type :: string
  max_pages :: "int option"
  extract_images_arg :: bool          \<comment> \<open>\<open>extract_images\<close>\<close>
  delay :: rat                        \<comment> \<open>\<open>self.delay\<close>, in seconds\<close>

record state =
  all_properties :: "property_data list"
  seen_urls :: "string set"
  page :: int
  consecutive_empty_pages :: nat
  requests :: "string list"           \<comment> \<open>the URLs handed to \<open>session.get\<close> so far\<close>

datatype outcome = Stopped state | Fetching state

definition normalize_area :: "string \<Rightarrow> string" where
  "normalize_area a = replace CHR ''_'' ''-'' (replace CHR '' '' ''-'' (lower a))"

definition page_url :: "string \<Rightarrow> string \<Rightarrow> int \<Rightarrow> int \<Rightarrow> string" where
  "page_url ttype area_normalized area_code pg =
     ''https://www.property24.com/'' @ ttype @ ''/'' @ area_normalized
       @ ''/cape-town/western-cape/'' @ str_int area_code
       @ (if pg > 1 then ''?Page='' @ str_int pg else [])"

fun filter_duplicates ::
  "property_data list \<Rightarrow> string set \<Rightarrow> property_data list \<Rightarrow> property_data list \<times> string set" where
  \<comment> \<open>the loop "filter duplicates", from \<open>seen_urls\<close> and \<open>new_properties\<close>\<close>
  "filter_duplicates [] seen new_properties = (new_properties, seen)"
| "filter_duplicates (prop # props) seen new_properties =
     (let prop_url = (case url prop of None \<Rightarrow> [] | Some u \<Rightarrow> u) in
      if prop_url \<noteq> [] \<and> prop_url \<notin> seen
      then filter_duplicates props (insert prop_url seen) (new_properties @ [prop])
      else if prop_url = []
      then filter_duplicates props seen (new_properties @ [prop])
      else filter_duplicates props seen new_properties)"

definition ceiling_reached :: "int option \<Rightarrow> int \<Rightarrow> bool" where
  \<comment> \<open>\<open>max_pages and page > max_pages\<close>\<close>
  "ceiling_reached mp pg = (case mp of None \<Rightarrow> False | Some m \<Rightarrow> m \<noteq> 0 \<and> pg > m)"

definition scrape_step ::
  "(string \<Rightarrow> response) \<Rightarrow> scrape_args \<Rightarrow> string \<Rightarrow> int \<Rightarrow> state \<Rightarrow> outcome" where
  \<comment> \<open>one turn of \<open>while True\<close>; \<open>Stopped\<close> is a \<open>break\<close>. An exception of
     \<open>session.get\<close> breaks in the handler; so does the \<open>ValueError\<close> of
     \<open>time.sleep(self.delay)\<close> for a negative delay, after the page was counted.\<close>
  "scrape_step fetch args area_normalized area_code st =
     (if consecutive_empty_pages st \<ge> 2 then Stopped st
      else if ceiling_reached (max_pages args) (page st) then Stopped st
      else
        (let url = page_url (transaction_type args) area_normalized area_code (page st);
             st = st\<lparr>requests := requests st @ [url]\<rparr>
         in case fetch url of
              Raised \<Rightarrow> Stopped st
            | Response status_code soup \<Rightarrow>
                if status_code \<noteq> 200 then Stopped st
                else
                  (let page_properties =
                         extract_all_properties_from_page soup (area_arg args)
                           (extract_images_arg args);
                       filtered = filter_duplicates page_properties (seen_urls st) [];
                       new_properties = fst filtered;
                       st = st\<lparr>seen_urls := snd filtered\<rparr>;
                       st = (if new_properties \<noteq> []
                             then st\<lparr>all_properties := all_properties st @ new_properties,
                                     consecutive_empty_pages := 0\<rparr>
                             else st\<lparr>consecutive_empty_pages := consecutive_empty_pages st + 1\<rparr>);
                       st = st\<lparr>page := page st + 1\<rparr>
                   in if delay args < 0 then Stopped st else Fetching st)))"

partial_function (option) scrape_loop ::
  "(string \<Rightarrow> response) \<Rightarrow> scrape_args \<Rightarrow> string \<Rightarrow> int \<Rightarrow> state \<Rightarrow> state option" where
  "scrape_loop fetch args area_normalized area_code st =
     (case scrape_step fetch args area_normalized area_code st of
        Stopped st' \<Rightarrow> Some st'
      | Fetching st' \<Rightarrow> scrape_loop fetch args area_normalized area_code st')"

definition initial_state :: state where
  "initial_state =
     \<lparr>all_properties = [], seen_urls = {}, page = 1, consecutive_empty_pages = 0, requests = []\<rparr>"

definition scrape_area_run :: "(string \<Rightarrow> response) \<Rightarrow> scrape_args \<Rightarrow> state option" where
  \<comment> \<open>\<open>scrape_area\<close> with the requests it made; \<open>None\<close> when the loop never ends\<close>
  "scrape_area_run fetch args =
     (let area_normalized = normalize_area (area_arg args) in
      case map_of PROPERTY24_AREA_CODES area_normalized of
        None \<Rightarrow> Some initial_state
      | Some area_code \<Rightarrow>
          if area_code = 0 then Some initial_state
          else scrape_loop fetch args area_normalized area_code initial_state)"

definition scrape_area :: "(string \<Rightarrow> response) \<Rightarrow> scrape_args \<Rightarrow> property_data list option" where
  "scrape_area fetch args = map_option all_properties (scrape_area_run fetch args)"

section \<open>Notions for stating the properties\<close>

text \<open>
  Deduplication "by exact equality, preserving the first occurrence", written as the
  specification words it, to compare the loop of the Image Resolver with.
\<close>

fun first_occurrences :: "json list \<Rightarrow> json list" where
  "first_occurrences [] = []"
| "first_occurrences (x # xs) = x # first_occurrences (filter (\<lambda>y. \<not> py_eq x y) xs)"

text \<open>
  What the Page Assembler discovers, before its dedup: the accepted record of every located
  fragment, stamped, selector by selector and fragment by fragment. \<open>keep_first\<close> is the
  dedup in the words of the specification: the first record to claim a key is kept, later
  ones with the same key are dropped.
\<close>

definition element_records :: "string \<Rightarrow> bool \<Rightarrow> string \<Rightarrow> element \<Rightarrow> property_data list" where
  "element_records area_name extract_images selector element =
     (case container_of element of
        None \<Rightarrow> []
      | Some container \<Rightarrow>
          (case extract_property_data_enhanced container extract_images of
             None \<Rightarrow> []
           | Some prop \<Rightarrow> [prop\<lparr>area := Some area_name, selector_used := Some selector\<rparr>]))"

definition discovered :: "soup \<Rightarrow> string \<Rightarrow> bool \<Rightarrow> property_data list" where
  "discovered soup area_name extract_images =
     concat (map (\<lambda>selector.
               concat (map (element_records area_name extract_images selector) (soup selector)))
             selectors)"

fun keep_first :: "dedup_key set \<Rightarrow> property_data list \<Rightarrow> property_data list" where
  "keep_first seen [] = []"
| "keep_first seen (p # ps) =
     (if key_of p \<in> seen then keep_first seen ps
      else p # keep_first (insert (key_of p) seen) ps)"

text \<open>
  Notions used to state the properties of a run: the state an iteration leaves, the Page
  Assembler's output for the page behind a request (nothing when the request fails),
  and the URLs that are present in a sequence of records.
\<close>

fun state_of :: "outcome \<Rightarrow> state" where
  "state_of (Stopped s) = s"
| "state_of (Fetching s) = s"

definition page_properties :: "(string \<Rightarrow> response) \<Rightarrow> scrape_args \<Rightarrow> string \<Rightarrow> property_data list" where
  "page_properties fetch args u =
     (case fetch u of
        Raised \<Rightarrow> []
      | Response status_code soup \<Rightarrow>
          if status_code = 200
          then extract_all_properties_from_page soup (area_arg args) (extract_images_arg args)
          else [])"

definition present_urls :: "property_data list \<Rightarrow> string list" where
  "present_urls props = List.map_filter url props"

section \<open>Example inputs\<close>

text \<open>
  Fragments, pages, sites and states on which the properties below are evaluated. A site
  maps the URL of a request to its response.
\<close>

definition scenario_text :: string where
  \<comment> \<open>the text \<^verbatim>\<open>R 1 250 000 2 Bed 1 Bath 85m2 Pool Security\<close>, its \<open>2\<close> after \<open>m\<close>
     being the superscript two (code point 0xB2)\<close>
  "scenario_text = ''R 1 250 000 2 Bed 1 Bath 85m'' @ [CHR 0xB2] @ '' Pool Security''"

definition scenario_fragment :: element where
  "scenario_fragment = Element ''div'' None scenario_text scenario_text [] [] [] []"







definition second_anchor_fragment :: element where
  "second_anchor_fragment =
     Element ''div'' None scenario_text scenario_text
       [''/contact-agent'', ''/for-sale/sea-point/112233''] [] [] []"

definition first_anchor_fragment :: element where
  "first_anchor_fragment =
     Element ''div'' None scenario_text scenario_text
       [''/for-sale/sea-point/112233'', ''/contact-agent''] [] [] []"

definition unhashable_fragment :: element where
  "unhashable_fragment =
     Element ''div'' None [] []  []
       [\<lparr>img_class = [], data_src = None, src = Some ''/listing/1.jpg''\<rparr>] []
       [Some (JObj [(''images'', JArr [JObj [(''url'', JArr [])]])])]"

definition broken_script_fragment :: element where
  "broken_script_fragment =
     Element ''div'' None [] []  []
       [\<lparr>img_class = [], data_src = None, src = Some ''/listing/1.jpg''\<rparr>] []
       [None, Some (JObj [(''images'', JArr [JStr ''http://cdn.example/2.jpg''])])]"


definition twin_text :: string where
  "twin_text = ''R 1 200 000 2 Bed 1 Bath 85m2 apartment in Sea Point''"

definition listing_a :: element where
  "listing_a = Element ''div'' None twin_text twin_text [''/for-sale/sea-point/1''] [] [] []"

definition listing_b :: element where
  "listing_b = Element ''div'' None twin_text twin_text [''/for-sale/sea-point/2''] [] [] []"

definition twin_page :: soup where
  "twin_page =
     (\<lambda>selector. if selector = ''.js_listingTile''
        then [listing_a, listing_b]
        else [])"

definition page_a :: soup where
  "page_a = (\<lambda>selector. if selector = ''.js_listingTile'' then [listing_a] else [])"

definition page_b :: soup where
  "page_b = (\<lambda>selector. if selector = ''.js_listingTile'' then [listing_b] else [])"

definition first_url :: string where
  "first_url = ''https://www.property24.com/for-sale/sea-point/cape-town/western-cape/11021''"

definition two_page_site :: "string \<Rightarrow> response" where
  "two_page_site u =
     (if u = first_url then Response 200 page_a
      else if u = first_url @ ''?Page=2'' then Response 200 page_b
      else Response 404 (\<lambda>selector. []))"

definition same_page_site :: "string \<Rightarrow> response" where
  "same_page_site u = Response 200 page_a"

definition sea_point_args :: scrape_args where
  "sea_point_args =
     \<lparr>area_arg = ''Sea Point'', transaction_type = ''for-sale'', max_pages = Some 10,
      extract_images_arg = False, delay = 1\<rparr>"

definition twin_record :: "string \<Rightarrow> property_data" where
  "twin_record u =
     \<lparr>price = Some (Some 1200000), ptype = ''Apartment'', bedrooms = Some 2,
      bathrooms = Some 1, size_sqm = Some 85, url = Some u, images = None,
      highlights = None, title = ''2 Bedroom Apartment'', neighborhood_vibe = None,
      area = Some ''Sea Point'', selector_used = Some ''.js_listingTile''\<rparr>"

definition linkless_text :: string where
  "linkless_text = ''R 2 500 000 3 Bed 2 Bath 120m2 house in Sea Point, no link''"

definition listing_c :: element where
  \<comment> \<open>a listing without any anchor\<close>
  "listing_c = Element ''div'' None linkless_text linkless_text [] [] [] []"

definition urlless_record :: property_data where
  "urlless_record =
     \<lparr>price = Some (Some 2500000), ptype = ''House'', bedrooms = Some 3,
      bathrooms = Some 2, size_sqm = Some 120, url = None, images = None,
      highlights = None, title = ''3 Bedroom House'', neighborhood_vibe = None,
      area = Some ''Sea Point'', selector_used = Some ''.js_listingTile''\<rparr>"

definition mixed_page :: soup where
  \<comment> \<open>two listings with the same key and different links, and one without a link\<close>
  "mixed_page =
     (\<lambda>selector. if selector = ''.js_listingTile'' then [listing_a, listing_b, listing_c]
        else [])"

definition mixed_site :: "string \<Rightarrow> response" where
  \<comment> \<open>the same page behind the first two requests, nothing behind the third\<close>
  "mixed_site u =
     (if u = first_url then Response 200 mixed_page
      else if u = first_url @ ''?Page=2'' then Response 200 mixed_page
      else Response 404 (\<lambda>selector. []))"

definition mixed_after_first :: state where
  "mixed_after_first =
     \<lparr>all_properties = [twin_record ''https://www.property24.com/for-sale/sea-point/1'',
                         urlless_record],
      seen_urls = {''https://www.property24.com/for-sale/sea-point/1''},
      page = 2,
      consecutive_empty_pages = 0,
      requests = [first_url]\<rparr>"

definition mixed_after_second :: state where
  "mixed_after_second =
     \<lparr>all_properties = [twin_record ''https://www.property24.com/for-sale/sea-point/1'',
                         urlless_record, urlless_record],
      seen_urls = {''https://www.property24.com/for-sale/sea-point/1''},
      page = 3,
      consecutive_empty_pages = 0,
      requests = [first_url, first_url @ ''?Page=2'']\<rparr>"

definition mixed_final :: state where
  "mixed_final =
     \<lparr>all_properties = [twin_record ''https://www.property24.com/for-sale/sea-point/1'',
                         urlless_record, urlless_record],
      seen_urls = {''https://www.property24.com/for-sale/sea-point/1''},
      page = 3,
      consecutive_empty_pages = 0,
      requests = [first_url, first_url @ ''?Page=2'', first_url @ ''?Page=3'']\<rparr>"

definition after_first_page :: state where
  "after_first_page =
     \<lparr>all_properties = [twin_record ''https://www.property24.com/for-sale/sea-point/1''],
      seen_urls = {''https://www.property24.com/for-sale/sea-point/1''},
      page = 2,
      consecutive_empty_pages = 0,
      requests = [first_url]\<rparr>"

definition after_second_page :: state where
  "after_second_page =
     \<lparr>all_properties = [twin_record ''https://www.property24.com/for-sale/sea-point/1'',
                         twin_record ''https://www.property24.com/for-sale/sea-point/2''],
      seen_urls = {''https://www.property24.com/for-sale/sea-point/2'',
                   ''https://www.property24.com/for-sale/sea-point/1''},
      page = 3,
      consecutive_empty_pages = 0,
      requests = [first_url, first_url @ ''?Page=2'']\<rparr>"

section \<open>Verified properties\<close>

subsection \<open>The worked scenario of the Field Extractor\<close>

lemma scenario_length: "length scenario_text = 43"
  by (simp add: scenario_text_def)

lemma scenario_price:
  "re_search False price_re scenario_text = Some (Some ''1 250 000'')"
  by code_simp

lemma scenario_price_int:
  "py_int (replace CHR '' '' [] (replace CHR '','' [] (group1 (Some ''1 250 000'')))) = Some 1250000"
  by code_simp

lemma scenario_beds: "match_int False bed_re scenario_text = Some 2"
  by code_simp

lemma scenario_baths: "match_int False bath_re scenario_text = Some 1"
  by code_simp

lemma scenario_size: "match_int True size_re scenario_text = Some 85"
  by code_simp

lemma scenario_type: "property_type (lower scenario_text) None = ''Property''"
  by code_simp

lemma scenario_features: "extract_features (lower scenario_text) = [''Pool'', ''Security'']"
  by code_simp

lemma scenario_title: "make_title (Some 2) ''Property'' = ''2 Bedroom Property''"
  by code_simp

text \<open>
  C9. Every fragment whose text is \<^verbatim>\<open>R 1 250 000 2 Bed 1 Bath 85m2 Pool Security\<close> (with the
  superscript two) is accepted, whether images are extracted or not, and its record has
  price 1250000, 2 bedrooms, 1 bathroom, 85 square metres, the highlights Pool and Security
  in that order, the type Property and the title \<open>2 Bedroom Property\<close>.
\<close>

theorem scenario_record:
  "get_text_sep element = scenario_text \<Longrightarrow>
   \<exists>r. extract_property_data_enhanced element extract_images = Some r
     \<and> price r = Some (Some 1250000)
     \<and> bedrooms r = Some 2
     \<and> bathrooms r = Some 1
     \<and> size_sqm r = Some 85
     \<and> highlights r = Some [''Pool'', ''Security'']
     \<and> ptype r = ''Property''
     \<and> title r = ''2 Bedroom Property''"
  unfolding extract_property_data_enhanced_def
  by (simp add: Let_def scenario_length scenario_price scenario_price_int scenario_beds
      scenario_baths scenario_size scenario_type scenario_features scenario_title)

theorem scenario_record_witness:
  "get_text_sep scenario_fragment = scenario_text \<and>
   (\<exists>r. extract_property_data_enhanced scenario_fragment True = Some r
     \<and> price r = Some (Some 1250000)
     \<and> bedrooms r = Some 2
     \<and> bathrooms r = Some 1
     \<and> size_sqm r = Some 85
     \<and> highlights r = Some [''Pool'', ''Security'']
     \<and> ptype r = ''Property''
     \<and> title r = ''2 Bedroom Property'')"
proof -
  have h: "get_text_sep scenario_fragment = scenario_text"
    by (simp add: scenario_fragment_def)
  from scenario_record [OF h, of True] h show ?thesis by simp
qed

subsection \<open>Substrings\<close>




subsection \<open>Fields of an accepted fragment\<close>

lemma accepted_fields:
  assumes "extract_property_data_enhanced element ei = Some r"
  shows "url r = extract_url element"
    and "images r = (if ei \<and> extract_property_images element \<noteq> []
                     then Some (extract_property_images element) else None)"
    and "highlights r = (if extract_features (lower (get_text_sep element)) \<noteq> []
                         then Some (extract_features (lower (get_text_sep element))) else None)"
  using assms unfolding extract_property_data_enhanced_def
  by (auto simp: Let_def split: if_splits option.splits prod.splits)

lemma scenario_fragment_record:
  "extract_property_data_enhanced scenario_fragment True =
     Some \<lparr>price = Some (Some 1250000), ptype = ''Property'', bedrooms = Some 2,
           bathrooms = Some 1, size_sqm = Some 85, url = None, images = None,
           highlights = Some [''Pool'', ''Security''], title = ''2 Bedroom Property'',
           neighborhood_vibe = None, area = None, selector_used = None\<rparr>"
  by code_simp

text \<open>
  C10. A record of the Field Extractor never holds an empty \<open>images\<close> or \<open>highlights\<close>
  sequence: \<open>images\<close> is present exactly when image extraction was asked for and the Image
  Resolver returned at least one entry, and then holds the resolver's result; \<open>highlights\<close>
  is present exactly when at least one feature keyword matched, and then holds the matches.
\<close>

theorem no_empty_images_or_highlights:
  "extract_property_data_enhanced element ei = Some r \<Longrightarrow>
     images r \<noteq> Some [] \<and> highlights r \<noteq> Some []
   \<and> (images r \<noteq> None \<longleftrightarrow> ei \<and> extract_property_images element \<noteq> [])
   \<and> (\<forall>is. images r = Some is \<longrightarrow> is = extract_property_images element)
   \<and> (highlights r \<noteq> None \<longleftrightarrow> extract_features (lower (get_text_sep element)) \<noteq> [])
   \<and> (\<forall>fs. highlights r = Some fs \<longrightarrow> fs = extract_features (lower (get_text_sep element)))"
  by (simp add: accepted_fields)

theorem no_empty_images_or_highlights_witness:
  "\<exists>r. extract_property_data_enhanced scenario_fragment True = Some r
     \<and> images r \<noteq> Some [] \<and> highlights r \<noteq> Some []
     \<and> highlights r = Some (extract_features (lower (get_text_sep scenario_fragment)))"
  using no_empty_images_or_highlights [OF scenario_fragment_record] scenario_fragment_record
  by auto







lemma first_anchor_fragment_accepted:
  "extract_property_data_enhanced first_anchor_fragment True =
     Some \<lparr>price = Some (Some 1250000), ptype = ''Property'', bedrooms = Some 2,
           bathrooms = Some 1, size_sqm = Some 85,
           url = Some ''https://www.property24.com/for-sale/sea-point/112233'', images = None,
           highlights = Some [''Pool'', ''Security''], title = ''2 Bedroom Property'',
           neighborhood_vibe = None, area = None, selector_used = None\<rparr>"
  by code_simp

text \<open>
  C5, as the code has it. Only the first anchor of the fragment that carries a target is
  looked at. The \<open>url\<close> of an accepted fragment is absent exactly when the fragment has no
  such anchor or the target of the first one does not contain \<open>/for-sale/\<close>; otherwise it is
  that target, kept as it is when it starts with \<open>http\<close> and prefixed with
  \<open>https://www.property24.com\<close> when it does not.
\<close>

theorem url_of_first_anchor:
  "extract_property_data_enhanced element ei = Some r \<Longrightarrow>
     (url r = None \<longleftrightarrow> anchors element = [] \<or> \<not> contains ''/for-sale/'' (hd (anchors element)))
   \<and> (\<forall>u. url r = Some u \<longrightarrow>
          u = (if startswith (hd (anchors element)) ''http'' then hd (anchors element)
               else ''https://www.property24.com'' @ hd (anchors element)))"
  by (auto simp: accepted_fields extract_url_def BASE_def split: list.splits)

theorem url_of_first_anchor_witness:
  "\<exists>r. extract_property_data_enhanced first_anchor_fragment True = Some r
     \<and> url r = Some (''https://www.property24.com'' @ hd (anchors first_anchor_fragment))"
proof -
  have s: "\<not> startswith (hd (anchors first_anchor_fragment)) ''http''" by code_simp
  from url_of_first_anchor [OF first_anchor_fragment_accepted] s
  show ?thesis by (simp add: first_anchor_fragment_accepted)
qed

text \<open>
  C5 as stated fails: the second anchor of this fragment points to a for-sale path, the
  first does not, and the record has no \<open>url\<close>.
\<close>

theorem url_of_first_anchor_counterexample:
  "contains ''/for-sale/'' (anchors second_anchor_fragment ! 1)
   \<and> map_option url (extract_property_data_enhanced second_anchor_fragment True) = Some None"
  by code_simp

subsection \<open>Image Resolver\<close>

lemma py_eq_sym: "py_eq a b = py_eq b a"
  by (auto simp: py_eq_def)

lemma py_in_insert: "py_in y (insert x seen) \<longleftrightarrow> py_eq x y \<or> py_in y seen"
  by (auto simp: py_in_def py_eq_def)

lemma remove_duplicates_hashable:
  "list_all hashable imgs \<Longrightarrow>
   remove_duplicates imgs seen unique_images =
     Inr (unique_images @ first_occurrences (filter (\<lambda>y. \<not> py_in y seen) imgs))"
proof (induction imgs arbitrary: seen unique_images)
  case Nil
  then show ?case by simp
next
  case (Cons x xs)
  then have hx: "hashable x" and hxs: "list_all hashable xs" by simp_all
  have f: "filter (\<lambda>y. \<not> py_in y (insert x seen)) xs
           = filter (\<lambda>y. \<not> py_eq x y) (filter (\<lambda>y. \<not> py_in y seen) xs)"
    by (auto simp: py_in_insert intro: filter_cong)
  show ?case
  proof (cases "py_in x seen")
    case True
    with hx Cons.IH [OF hxs] show ?thesis by simp
  next
    case False
    with hx Cons.IH [OF hxs, of "insert x seen" "unique_images @ [x]"] f
    show ?thesis by simp
  qed
qed

lemma remove_duplicates_unhashable:
  "\<not> list_all hashable imgs \<Longrightarrow> remove_duplicates imgs seen unique_images = Inl TypeError"
  by (induction imgs arbitrary: seen unique_images) auto

lemma first_occurrences_subset: "set (first_occurrences xs) \<subseteq> set xs"
  by (induction xs rule: first_occurrences.induct) auto


lemma first_occurrences_covers:
  "v \<in> set xs \<Longrightarrow> \<exists>w\<in>set (first_occurrences xs). py_eq w v"
proof (induction xs rule: first_occurrences.induct)
  case 1
  then show ?case by simp
next
  case (2 x xs)
  show ?case
  proof (cases "py_eq x v")
    case True
    then show ?thesis by auto
  next
    case False
    with "2.prems" have "v \<in> set (filter (\<lambda>y. \<not> py_eq x y) xs)" by (auto simp: py_eq_def)
    with "2.IH" show ?thesis by auto
  qed
qed

lemma all_images_hashable: "list_all hashable (all_images e) = list_all hashable (method3 e)"
  by (auto simp: all_images_def list_all_iff)

lemma extract_property_images_body_eq:
  "extract_property_images_body e =
     (if list_all hashable (method3 e) then Inr (take 5 (first_occurrences (all_images e)))
      else Inl TypeError)"
  unfolding extract_property_images_body_def
  by (simp add: remove_duplicates_hashable remove_duplicates_unhashable all_images_hashable py_in_def)

lemma extract_property_images_eq:
  "extract_property_images e =
     (if list_all hashable (method3 e) then take 5 (first_occurrences (all_images e)) else [])"
  by (simp add: extract_property_images_def extract_property_images_body_eq)


lemma broken_script_value:
  "extract_property_images broken_script_fragment =
     [JStr ''https://www.property24.com/listing/1.jpg'', JStr ''http://cdn.example/2.jpg'']"
  by code_simp






text \<open>
  C6, as the code has it. The only exception caught for one item alone is a failing
  \<open>json.loads\<close>: that script is skipped as if it were not there. The other exception
  the resolver can meet, a list or dictionary collected from the embedded data reaching the
  duplicate test, is caught by the outer handler, which returns the empty sequence and so
  drops what every strategy gathered. Without such a value the body ends normally, returns
  only candidates, and represents every candidate when at most five distinct ones exist.
  Nothing is propagated: the result is a sequence in both cases.
\<close>

theorem image_exceptions:
  "(list_all hashable (method3 e) \<longrightarrow>
      extract_property_images_body e = Inr (extract_property_images e)
      \<and> set (extract_property_images e) \<subseteq> set (all_images e)
      \<and> (length (first_occurrences (all_images e)) \<le> 5 \<longrightarrow>
           (\<forall>v\<in>set (all_images e). \<exists>w\<in>set (extract_property_images e). py_eq w v)))
   \<and> (\<not> list_all hashable (method3 e) \<longrightarrow>
      extract_property_images_body e = Inl TypeError \<and> extract_property_images e = [])
   \<and> extract_property_images (Element n p t ts as is ss (before @ None # after))
      = extract_property_images (Element n p t ts as is ss (before @ after))"
proof -
  have "set (take 5 (first_occurrences (all_images e))) \<subseteq> set (all_images e)"
    using first_occurrences_subset [of "all_images e"] set_take_subset by fastforce
  moreover have "method3 (Element n p t ts as is ss (before @ None # after))
        = method3 (Element n p t ts as is ss (before @ after))"
    by (simp add: method3_def script_images_def)
  then have "extract_property_images (Element n p t ts as is ss (before @ None # after))
      = extract_property_images (Element n p t ts as is ss (before @ after))"
    by (simp add: extract_property_images_eq all_images_def method1_def method2_def)
  ultimately show ?thesis
    by (auto simp: extract_property_images_eq extract_property_images_body_eq
        dest: first_occurrences_covers)
qed

theorem image_exceptions_witness:
  "list_all hashable (method3 broken_script_fragment)
   \<and> extract_property_images_body broken_script_fragment
       = Inr [JStr ''https://www.property24.com/listing/1.jpg'', JStr ''http://cdn.example/2.jpg'']
   \<and> \<not> list_all hashable (method3 unhashable_fragment)
   \<and> extract_property_images unhashable_fragment = []"
proof -
  have h1: "list_all hashable (method3 broken_script_fragment)" by code_simp
  have h2: "\<not> list_all hashable (method3 unhashable_fragment)" by code_simp
  from image_exceptions [of broken_script_fragment] h1
  have "extract_property_images_body broken_script_fragment
        = Inr (extract_property_images broken_script_fragment)" by blast
  moreover from image_exceptions [of unhashable_fragment] h2
  have "extract_property_images unhashable_fragment = []" by blast
  ultimately show ?thesis using h1 h2 broken_script_value by simp
qed

text \<open>
  C6 as stated fails: the tag strategy gathers an image of this fragment, its embedded data
  holds a list under \<open>url\<close>, and the resolver returns nothing.
\<close>

theorem image_exceptions_counterexample:
  "method1 unhashable_fragment = [''https://www.property24.com/listing/1.jpg'']
   \<and> extract_property_images_body unhashable_fragment = Inl TypeError
   \<and> extract_property_images unhashable_fragment = []"
  by code_simp

subsection \<open>Page Assembler\<close>

lemma keep_first_append:
  "keep_first seen (xs @ ys) = keep_first seen xs @ keep_first (seen \<union> key_of ` set xs) ys"
  by (induction xs arbitrary: seen) (auto simp: insert_absorb)

lemma key_of_stamp [simp]:
  "key_of (prop\<lparr>area := a, selector_used := s\<rparr>) = key_of prop"
  by (simp add: key_of_def get_price_def)

lemma assemble_element_eq:
  "assemble_element area_name ei selector element acc =
     (fst acc @ keep_first (snd acc) (element_records area_name ei selector element),
      snd acc \<union> key_of ` set (element_records area_name ei selector element))"
  by (cases acc)
     (auto simp: assemble_element_def element_records_def Let_def split: option.splits)

lemma fold_assemble_element:
  "fold (assemble_element area_name ei selector) els acc =
     (fst acc @ keep_first (snd acc) (concat (map (element_records area_name ei selector) els)),
      snd acc \<union> key_of ` set (concat (map (element_records area_name ei selector) els)))"
proof (induction els arbitrary: acc)
  case Nil
  then show ?case by simp
next
  case (Cons el els)
  have "fold (assemble_element area_name ei selector) (el # els) acc
        = fold (assemble_element area_name ei selector) els
            (assemble_element area_name ei selector el acc)"
    by simp
  also note Cons.IH
  finally have e: "fold (assemble_element area_name ei selector) (el # els) acc =
    (fst (assemble_element area_name ei selector el acc) @
       keep_first (snd (assemble_element area_name ei selector el acc))
         (concat (map (element_records area_name ei selector) els)),
     snd (assemble_element area_name ei selector el acc) \<union>
       key_of ` set (concat (map (element_records area_name ei selector) els)))" .
  show ?case
    unfolding e by (simp add: assemble_element_eq keep_first_append Un_assoc image_Un)
qed

lemma fold_assemble_selector:
  "fold (assemble_selector soup area_name ei) sels acc =
     (fst acc @ keep_first (snd acc)
        (concat (map (\<lambda>selector.
           concat (map (element_records area_name ei selector) (soup selector))) sels)),
      snd acc \<union> key_of ` set
        (concat (map (\<lambda>selector.
           concat (map (element_records area_name ei selector) (soup selector))) sels)))"
proof (induction sels arbitrary: acc)
  case Nil
  then show ?case by simp
next
  case (Cons s sels)
  have "fold (assemble_selector soup area_name ei) (s # sels) acc
        = fold (assemble_selector soup area_name ei) sels
            (assemble_selector soup area_name ei s acc)"
    by simp
  also note Cons.IH
  finally have e: "fold (assemble_selector soup area_name ei) (s # sels) acc =
    (fst (assemble_selector soup area_name ei s acc) @
       keep_first (snd (assemble_selector soup area_name ei s acc))
         (concat (map (\<lambda>selector.
            concat (map (element_records area_name ei selector) (soup selector))) sels)),
     snd (assemble_selector soup area_name ei s acc) \<union>
       key_of ` set (concat (map (\<lambda>selector.
            concat (map (element_records area_name ei selector) (soup selector))) sels)))" .
  have f: "assemble_selector soup area_name ei s acc =
    (fst acc @ keep_first (snd acc)
        (concat (map (element_records area_name ei s) (soup s))),
     snd acc \<union> key_of ` set (concat (map (element_records area_name ei s) (soup s))))"
    by (simp add: assemble_selector_def fold_assemble_element)
  show ?case
    unfolding e f by (simp add: keep_first_append Un_assoc image_Un)
qed

lemma extract_all_keep_first:
  "extract_all_properties_from_page soup area_name ei
     = keep_first {} (discovered soup area_name ei)"
  by (simp add: extract_all_properties_from_page_def fold_assemble_selector discovered_def)

lemma keep_first_keys: "p \<in> set (keep_first seen xs) \<Longrightarrow> key_of p \<notin> seen \<and> p \<in> set xs"
  by (induction xs arbitrary: seen) (auto split: if_splits)

lemma keep_first_distinct: "distinct (map key_of (keep_first seen xs))"
  by (induction xs arbitrary: seen) (auto dest: keep_first_keys)

lemma keep_first_subseq: "subseq (keep_first seen xs) xs"
  by (induction xs arbitrary: seen) auto

lemma keep_first_covers:
  "p \<in> set xs \<Longrightarrow> key_of p \<notin> seen \<Longrightarrow> \<exists>q\<in>set (keep_first seen xs). key_of q = key_of p"
proof (induction xs arbitrary: seen)
  case Nil
  then show ?case by simp
next
  case (Cons x xs)
  show ?case
  proof (cases "key_of x = key_of p")
    case True
    with Cons.prems show ?thesis by auto
  next
    case False
    with Cons.prems have "p \<in> set xs" by auto
    from Cons.IH [OF this] Cons.prems False show ?thesis by auto
  qed
qed

lemma keep_first_is_first:
  "q \<in> set (keep_first seen xs) \<Longrightarrow> find (\<lambda>p. key_of p = key_of q) xs = Some q"
proof (induction xs arbitrary: seen)
  case Nil
  then show ?case by simp
next
  case (Cons x xs)
  show ?case
  proof (cases "key_of x \<in> seen")
    case True
    with Cons.prems have q: "q \<in> set (keep_first seen xs)" by simp
    with keep_first_keys have "key_of q \<notin> seen" by blast
    with True have "key_of x \<noteq> key_of q" by auto
    with Cons.IH [OF q] show ?thesis by simp
  next
    case False
    with Cons.prems consider "q = x" | "q \<in> set (keep_first (insert (key_of x) seen) xs)"
      by auto
    then show ?thesis
    proof cases
      case 1
      then show ?thesis by simp
    next
      case 2
      with keep_first_keys have "key_of q \<notin> insert (key_of x) seen" by blast
      then have "key_of x \<noteq> key_of q" by auto
      with Cons.IH [OF 2] show ?thesis by simp
    qed
  qed
qed

text \<open>
  C2. For every page, no two records of the Page Assembler's output have the same
  (price, bedrooms, size_sqm) key. The output keeps the order of discovery, every discovered
  key is represented, and the record kept for a key is the first discovered with that key.
\<close>

theorem page_keys_unique:
  "distinct (map key_of (extract_all_properties_from_page soup area_name ei))
   \<and> subseq (extract_all_properties_from_page soup area_name ei) (discovered soup area_name ei)
   \<and> (\<forall>p\<in>set (discovered soup area_name ei).
         \<exists>q\<in>set (extract_all_properties_from_page soup area_name ei). key_of q = key_of p)
   \<and> (\<forall>q\<in>set (extract_all_properties_from_page soup area_name ei).
         find (\<lambda>p. key_of p = key_of q) (discovered soup area_name ei) = Some q)"
  unfolding extract_all_keep_first
  by (auto simp: keep_first_distinct keep_first_subseq keep_first_is_first
      intro: keep_first_covers)

lemma twin_page_discovered:
  "map (\<lambda>p. (key_of p, url p)) (discovered twin_page ''Sea Point'' False) =
     [((Some 1200000, Some 2, Some 85), Some ''https://www.property24.com/for-sale/sea-point/1''),
      ((Some 1200000, Some 2, Some 85), Some ''https://www.property24.com/for-sale/sea-point/2'')]"
  by code_simp

lemma twin_page_output:
  "map (\<lambda>p. (key_of p, url p)) (extract_all_properties_from_page twin_page ''Sea Point'' False) =
     [((Some 1200000, Some 2, Some 85), Some ''https://www.property24.com/for-sale/sea-point/1'')]"
  by code_simp

theorem page_keys_unique_witness:
  "map key_of (discovered twin_page ''Sea Point'' False)
     = [(Some 1200000, Some 2, Some 85), (Some 1200000, Some 2, Some 85)]
   \<and> map url (extract_all_properties_from_page twin_page ''Sea Point'' False)
     = [Some ''https://www.property24.com/for-sale/sea-point/1'']
   \<and> distinct (map key_of (extract_all_properties_from_page twin_page ''Sea Point'' False))
   \<and> subseq (extract_all_properties_from_page twin_page ''Sea Point'' False)
        (discovered twin_page ''Sea Point'' False)"
proof -
  have a: "map key_of (discovered twin_page ''Sea Point'' False)
     = [(Some 1200000, Some 2, Some 85), (Some 1200000, Some 2, Some 85)]"
    using arg_cong [OF twin_page_discovered, of "map fst"] by (simp add: comp_def)
  have b: "map url (extract_all_properties_from_page twin_page ''Sea Point'' False)
     = [Some ''https://www.property24.com/for-sale/sea-point/1'']"
    using arg_cong [OF twin_page_output, of "map snd"] by (simp add: comp_def)
  from page_keys_unique [of twin_page "''Sea Point''" False] a b show ?thesis by blast
qed

subsection \<open>Pagination Controller\<close>


lemma filter_duplicates_keeps_new:
  "set new \<subseteq> set (fst (filter_duplicates props seen new))"
proof (induction props arbitrary: seen new)
  case Nil
  then show ?case by simp
next
  case (Cons p ps)
  show ?case
    using Cons.IH [of new seen] Cons.IH [of "new @ [p]" seen]
      Cons.IH [of "new @ [p]" "insert (case url p of None \<Rightarrow> [] | Some u \<Rightarrow> u) seen"]
    by (auto simp: Let_def)
qed

lemma filter_duplicates_urlless:
  "p \<in> set props \<Longrightarrow> url p = None \<Longrightarrow> p \<in> set (fst (filter_duplicates props seen new))"
proof (induction props arbitrary: seen new)
  case Nil
  then show ?case by simp
next
  case (Cons x xs)
  show ?case
  proof (cases "p = x")
    case True
    with Cons.prems filter_duplicates_keeps_new [of "new @ [x]" xs seen]
    show ?thesis by (auto simp: Let_def)
  next
    case False
    with Cons.prems have "p \<in> set xs" by simp
    from Cons.IH [OF this Cons.prems(2)] show ?thesis by (auto simp: Let_def)
  qed
qed

lemma filter_duplicates_subseq:
  "\<exists>kept. fst (filter_duplicates props seen new) = new @ kept \<and> subseq kept props"
proof (induction props arbitrary: seen new)
  case Nil
  then show ?case by simp
next
  case (Cons p ps)
  let ?u = "case url p of None \<Rightarrow> [] | Some u \<Rightarrow> u"
  consider (a) "?u \<noteq> [] \<and> ?u \<notin> seen" | (b) "?u = []" | (c) "?u \<noteq> [] \<and> ?u \<in> seen"
    by blast
  then show ?case
  proof cases
    case a
    from Cons.IH [of "insert ?u seen" "new @ [p]"] obtain kept where
      "fst (filter_duplicates ps (insert ?u seen) (new @ [p])) = (new @ [p]) @ kept"
      "subseq kept ps" by blast
    with a have "fst (filter_duplicates (p # ps) seen new) = new @ (p # kept)
        \<and> subseq (p # kept) (p # ps)" by (simp add: Let_def)
    then show ?thesis by blast
  next
    case b
    from Cons.IH [of seen "new @ [p]"] obtain kept where
      "fst (filter_duplicates ps seen (new @ [p])) = (new @ [p]) @ kept"
      "subseq kept ps" by blast
    with b have "fst (filter_duplicates (p # ps) seen new) = new @ (p # kept)
        \<and> subseq (p # kept) (p # ps)" by (simp add: Let_def)
    then show ?thesis by blast
  next
    case c
    from Cons.IH [of seen new] obtain kept where
      "fst (filter_duplicates ps seen new) = new @ kept" "subseq kept ps" by blast
    with c have "fst (filter_duplicates (p # ps) seen new) = new @ kept
        \<and> subseq kept (p # ps)" by (simp add: Let_def list_emb_Cons)
    then show ?thesis by blast
  qed
qed

lemma filter_duplicates_nothing_new:
  "fst (filter_duplicates props seen []) = [] \<Longrightarrow> snd (filter_duplicates props seen []) = seen"
proof (induction props arbitrary: seen)
  case Nil
  then show ?case by simp
next
  case (Cons p ps)
  let ?u = "case url p of None \<Rightarrow> [] | Some u \<Rightarrow> u"
  have n: "fst (filter_duplicates ps s [p]) \<noteq> []" for s
    using filter_duplicates_keeps_new [of "[p]" ps s] by auto
  from Cons.prems n have c: "?u \<noteq> [] \<and> ?u \<in> seen"
    by (auto simp: Let_def split: if_splits)
  with Cons.prems have "fst (filter_duplicates ps seen []) = []" by (simp add: Let_def)
  from Cons.IH [OF this] c show ?case by (simp add: Let_def)
qed


lemma present_urls_append [simp]:
  "present_urls (xs @ ys) = present_urls xs @ present_urls ys"
  by (simp add: present_urls_def map_filter_def)



lemma scrape_loop_invariant:
  assumes run: "scrape_loop fetch args an code st = Some st'"
    and init: "Inv st"
    and step: "\<And>s. Inv s \<Longrightarrow> Inv (state_of (scrape_step fetch args an code s))"
  shows "Inv st'"
proof -
  have "f = fetch \<and> a = args \<and> n = an \<and> c = code \<and> Inv s \<longrightarrow> Inv r"
    if "scrape_loop f a n c s = Some r" for f a n c s r
  proof (rule scrape_loop.raw_induct
      [where P = "\<lambda>f a n c s r. f = fetch \<and> a = args \<and> n = an \<and> c = code \<and> Inv s \<longrightarrow> Inv r",
        OF _ that])
    fix loop f a n c s r
    assume IH: "\<And>f a n c s r. loop f a n c s = Some r \<Longrightarrow>
        f = fetch \<and> a = args \<and> n = an \<and> c = code \<and> Inv s \<longrightarrow> Inv r"
      and body: "(case scrape_step f a n c s of
                    Stopped st' \<Rightarrow> Some st'
                  | Fetching st' \<Rightarrow> loop f a n c st') = Some r"
    show "f = fetch \<and> a = args \<and> n = an \<and> c = code \<and> Inv s \<longrightarrow> Inv r"
    proof (intro impI, elim conjE)
      assume eq: "f = fetch" "a = args" "n = an" "c = code" and inv: "Inv s"
      show "Inv r"
      proof (cases "scrape_step f a n c s")
        case (Stopped s')
        with body have "r = s'" by simp
        with step [OF inv] Stopped eq show ?thesis by simp
      next
        case (Fetching s')
        with body have l: "loop f a n c s' = Some r" by simp
        from step [OF inv] Fetching eq have "Inv s'" by simp
        with IH [OF l] eq show ?thesis by simp
      qed
    qed
  qed
  from this [OF run] init show ?thesis by simp
qed

lemma scrape_step_effect:
  "state_of (scrape_step fetch args an code st) = st
   \<or> (requests (state_of (scrape_step fetch args an code st))
         = requests st @ [page_url (transaction_type args) an code (page st)]
       \<and> all_properties (state_of (scrape_step fetch args an code st))
         = all_properties st
           @ fst (filter_duplicates
                   (page_properties fetch args (page_url (transaction_type args) an code (page st)))
                   (seen_urls st) [])
       \<and> seen_urls (state_of (scrape_step fetch args an code st))
         = snd (filter_duplicates
                   (page_properties fetch args (page_url (transaction_type args) an code (page st)))
                   (seen_urls st) []))"
  unfolding scrape_step_def page_properties_def
  by (auto simp: Let_def split: response.splits)




lemma page_properties_keys: "distinct (map key_of (page_properties fetch args u))"
  by (auto simp: page_properties_def extract_all_keep_first keep_first_distinct
      split: response.splits)


lemma subseq_keeps_distinct: "subseq xs ys \<Longrightarrow> distinct ys \<Longrightarrow> distinct xs"
proof (induction rule: list_emb.induct)
  case (list_emb_Nil ys)
  then show ?case by simp
next
  case (list_emb_Cons xs ys y)
  then show ?case by simp
next
  case (list_emb_Cons2 x y xs ys)
  have "x \<notin> set xs"
  proof
    assume "x \<in> set xs"
    with list_emb_Cons2(2) obtain z where "z \<in> set ys" "x = z" by (rule list_emb_set)
    with list_emb_Cons2(1,4) show False by simp
  qed
  with list_emb_Cons2 show ?case by simp
qed


lemma scrape_area_run_invariant:
  assumes run: "scrape_area_run fetch args = Some st"
    and init: "Inv initial_state"
    and step: "\<And>an code s. Inv s \<Longrightarrow> Inv (state_of (scrape_step fetch args an code s))"
  shows "Inv st"
proof (cases "map_of PROPERTY24_AREA_CODES (normalize_area (area_arg args))")
  case None
  with run init show ?thesis by (simp add: scrape_area_run_def)
next
  case (Some code)
  show ?thesis
  proof (cases "code = 0")
    case True
    with Some run init show ?thesis by (simp add: scrape_area_run_def)
  next
    case False
    with Some run have
      "scrape_loop fetch args (normalize_area (area_arg args)) code initial_state = Some st"
      by (simp add: scrape_area_run_def)
    from scrape_loop_invariant [of fetch args _ code initial_state st Inv, OF this init step]
    show ?thesis .
  qed
qed


text \<open>
  C1, as the code has it. The key tuple is used within a page only. The records returned by
  a run are, request by request, a subsequence of the Page Assembler's output for that page:
  two records emitted from the same page never share a (price, bedrooms, size_sqm) tuple,
  with or without a URL, and the cross-page step drops no URL-less record. Records emitted
  from different pages may share the tuple.
\<close>

theorem same_page_keys_distinct:
  "scrape_area_run fetch args = Some st \<Longrightarrow>
   \<exists>chunks. all_properties st = concat chunks
     \<and> list_all2 (\<lambda>c u. subseq c (page_properties fetch args u)
                     \<and> distinct (map key_of c)
                     \<and> (\<forall>p\<in>set (page_properties fetch args u). url p = None \<longrightarrow> p \<in> set c))
          chunks (requests st)"
proof -
  assume run: "scrape_area_run fetch args = Some st"
  let ?ok = "\<lambda>c u. subseq c (page_properties fetch args u)
                     \<and> distinct (map key_of c)
                     \<and> (\<forall>p\<in>set (page_properties fetch args u). url p = None \<longrightarrow> p \<in> set c)"
  define Inv where "Inv s \<longleftrightarrow>
      (\<exists>chunks. all_properties s = concat chunks \<and> list_all2 ?ok chunks (requests s))" for s :: state
  have init: "Inv initial_state"
    by (simp add: Inv_def initial_state_def)
  have step: "Inv (state_of (scrape_step fetch args an code s))" if inv: "Inv s" for an code s
  proof -
    let ?s' = "state_of (scrape_step fetch args an code s)"
    let ?u = "page_url (transaction_type args) an code (page s)"
    let ?pp = "page_properties fetch args ?u"
    let ?fd = "filter_duplicates ?pp (seen_urls s) []"
    from scrape_step_effect [of fetch args an code s]
    consider "?s' = s"
      | "requests ?s' = requests s @ [?u]" "all_properties ?s' = all_properties s @ fst ?fd"
      by blast
    then show ?thesis
    proof cases
      case 1
      with inv show ?thesis by simp
    next
      case 2
      from inv obtain chunks where c: "all_properties s = concat chunks"
        "list_all2 ?ok chunks (requests s)" unfolding Inv_def by blast
      from filter_duplicates_subseq [of ?pp "seen_urls s" "[]"]
      have sub: "subseq (fst ?fd) ?pp" by auto
      then have "subseq (map key_of (fst ?fd)) (map key_of ?pp)" by (rule subseq_map)
      with page_properties_keys [of fetch args ?u]
      have dis: "distinct (map key_of (fst ?fd))" by (rule subseq_keeps_distinct [rotated])
      have "\<forall>p\<in>set ?pp. url p = None \<longrightarrow> p \<in> set (fst ?fd)"
        by (auto intro: filter_duplicates_urlless)
      with sub dis have "list_all2 ?ok [fst ?fd] [?u]" by simp
      with c(2) have "list_all2 ?ok (chunks @ [fst ?fd]) (requests s @ [?u])"
        by (rule list_all2_appendI)
      moreover have "all_properties ?s' = concat (chunks @ [fst ?fd])"
        using 2 c by simp
      ultimately show ?thesis unfolding Inv_def 2(1) by blast
    qed
  qed
  from scrape_area_run_invariant [of fetch args st Inv, OF run init step]
  show ?thesis by (simp add: Inv_def)
qed

lemma page_a_output:
  "extract_all_properties_from_page page_a ''Sea Point'' False
     = [twin_record ''https://www.property24.com/for-sale/sea-point/1'']"
  by code_simp

lemma page_b_output:
  "extract_all_properties_from_page page_b ''Sea Point'' False
     = [twin_record ''https://www.property24.com/for-sale/sea-point/2'']"
  by code_simp

lemma sea_point_urls:
  "page_url ''for-sale'' ''sea-point'' 11021 1 = first_url"
  "page_url ''for-sale'' ''sea-point'' 11021 2 = first_url @ ''?Page=2''"
  "page_url ''for-sale'' ''sea-point'' 11021 3 = first_url @ ''?Page=3''"
  by code_simp+

lemma sea_point_code:
  "normalize_area ''Sea Point'' = ''sea-point''"
  "map_of PROPERTY24_AREA_CODES ''sea-point'' = Some 11021"
  by code_simp+

lemma scrape_step_stop:
  "2 \<le> consecutive_empty_pages st \<Longrightarrow> scrape_step fetch args an code st = Stopped st"
  by (simp add: scrape_step_def)

lemma scrape_step_failed:
  assumes "consecutive_empty_pages st < 2"
    and "\<not> ceiling_reached (max_pages args) (page st)"
    and "fetch (page_url (transaction_type args) an code (page st)) = Response status soup"
    and "status \<noteq> 200"
  shows "scrape_step fetch args an code st =
     Stopped (st\<lparr>requests := requests st @ [page_url (transaction_type args) an code (page st)]\<rparr>)"
  using assms by (simp add: scrape_step_def Let_def)

lemma scrape_step_new_page:
  assumes "consecutive_empty_pages st < 2"
    and "\<not> ceiling_reached (max_pages args) (page st)"
    and "0 \<le> delay args"
    and "fetch (page_url (transaction_type args) an code (page st)) = Response 200 soup"
    and "filter_duplicates
           (extract_all_properties_from_page soup (area_arg args) (extract_images_arg args))
           (seen_urls st) [] = (new, seen')"
    and "new \<noteq> []"
  shows "scrape_step fetch args an code st =
     Fetching (st\<lparr>requests := requests st @ [page_url (transaction_type args) an code (page st)],
                  seen_urls := seen',
                  all_properties := all_properties st @ new,
                  consecutive_empty_pages := 0,
                  page := page st + 1\<rparr>)"
  using assms by (simp add: scrape_step_def Let_def)

lemma scrape_step_empty_page:
  assumes "consecutive_empty_pages st < 2"
    and "\<not> ceiling_reached (max_pages args) (page st)"
    and "0 \<le> delay args"
    and "fetch (page_url (transaction_type args) an code (page st)) = Response 200 soup"
    and "fst (filter_duplicates
           (extract_all_properties_from_page soup (area_arg args) (extract_images_arg args))
           (seen_urls st) []) = []"
  shows "scrape_step fetch args an code st =
     Fetching (st\<lparr>requests := requests st @ [page_url (transaction_type args) an code (page st)],
                  consecutive_empty_pages := consecutive_empty_pages st + 1,
                  page := page st + 1\<rparr>)"
  using assms filter_duplicates_nothing_new [OF assms(5)]
  by (simp add: scrape_step_def Let_def)


lemma scrape_loop_stopped:
  "scrape_step fetch args an code st = Stopped st' \<Longrightarrow>
   scrape_loop fetch args an code st = Some st'"
  by (subst scrape_loop.simps) simp

lemma scrape_loop_fetching:
  "scrape_step fetch args an code st = Fetching st' \<Longrightarrow>
   scrape_loop fetch args an code st = scrape_loop fetch args an code st'"
  by (subst scrape_loop.simps) simp

lemma two_page_step1:
  "scrape_step two_page_site sea_point_args ''sea-point'' 11021 initial_state
     = Fetching after_first_page"
proof -
  have "scrape_step two_page_site sea_point_args ''sea-point'' 11021 initial_state =
     Fetching (initial_state\<lparr>requests := requests initial_state
                   @ [page_url (transaction_type sea_point_args) ''sea-point'' 11021
                        (page initial_state)],
                  seen_urls := {''https://www.property24.com/for-sale/sea-point/1''},
                  all_properties := all_properties initial_state
                     @ [twin_record ''https://www.property24.com/for-sale/sea-point/1''],
                  consecutive_empty_pages := 0,
                  page := page initial_state + 1\<rparr>)"
    by (rule scrape_step_new_page [where soup = page_a])
       (simp_all add: initial_state_def sea_point_args_def ceiling_reached_def sea_point_urls
          two_page_site_def page_a_output twin_record_def Let_def)
  then show ?thesis
    by (simp add: initial_state_def after_first_page_def sea_point_args_def sea_point_urls)
qed

lemma two_page_step2:
  "scrape_step two_page_site sea_point_args ''sea-point'' 11021 after_first_page
     = Fetching after_second_page"
proof -
  have "scrape_step two_page_site sea_point_args ''sea-point'' 11021 after_first_page =
     Fetching (after_first_page\<lparr>requests := requests after_first_page
                   @ [page_url (transaction_type sea_point_args) ''sea-point'' 11021
                        (page after_first_page)],
                  seen_urls := {''https://www.property24.com/for-sale/sea-point/2'',
                                ''https://www.property24.com/for-sale/sea-point/1''},
                  all_properties := all_properties after_first_page
                     @ [twin_record ''https://www.property24.com/for-sale/sea-point/2''],
                  consecutive_empty_pages := 0,
                  page := page after_first_page + 1\<rparr>)"
    by (rule scrape_step_new_page [where soup = page_b])
       (simp_all add: after_first_page_def sea_point_args_def ceiling_reached_def sea_point_urls
          two_page_site_def page_b_output twin_record_def first_url_def Let_def)
  then show ?thesis
    by (simp add: after_first_page_def after_second_page_def sea_point_args_def sea_point_urls)
qed

lemma two_page_step3:
  "scrape_step two_page_site sea_point_args ''sea-point'' 11021 after_second_page
     = Stopped (after_second_page\<lparr>requests := [first_url, first_url @ ''?Page=2'',
                                                first_url @ ''?Page=3'']\<rparr>)"
proof -
  have "scrape_step two_page_site sea_point_args ''sea-point'' 11021 after_second_page =
     Stopped (after_second_page\<lparr>requests := requests after_second_page
                   @ [page_url (transaction_type sea_point_args) ''sea-point'' 11021
                        (page after_second_page)]\<rparr>)"
    by (rule scrape_step_failed [where status = 404 and soup = "\<lambda>selector. []"])
       (simp_all add: after_second_page_def sea_point_args_def ceiling_reached_def sea_point_urls
          two_page_site_def first_url_def)
  then show ?thesis
    by (simp add: after_second_page_def sea_point_args_def sea_point_urls)
qed

lemma two_page_run:
  "scrape_area_run two_page_site sea_point_args
     = Some (after_second_page\<lparr>requests := [first_url, first_url @ ''?Page=2'',
                                              first_url @ ''?Page=3'']\<rparr>)"
proof -
  have "scrape_area_run two_page_site sea_point_args
        = scrape_loop two_page_site sea_point_args ''sea-point'' 11021 initial_state"
    by (simp add: scrape_area_run_def sea_point_args_def sea_point_code)
  also have "\<dots> = scrape_loop two_page_site sea_point_args ''sea-point'' 11021 after_first_page"
    by (rule scrape_loop_fetching [OF two_page_step1])
  also have "\<dots> = scrape_loop two_page_site sea_point_args ''sea-point'' 11021 after_second_page"
    by (rule scrape_loop_fetching [OF two_page_step2])
  also note scrape_loop_stopped [OF two_page_step3]
  finally show ?thesis .
qed

lemma two_page_keys:
  "map key_of [twin_record ''https://www.property24.com/for-sale/sea-point/1'',
               twin_record ''https://www.property24.com/for-sale/sea-point/2'']
     = [(Some 1200000, Some 2, Some 85), (Some 1200000, Some 2, Some 85)]"
  by (simp add: key_of_def get_price_def twin_record_def)

text \<open>
  C1 as stated fails: a site whose first two pages each show one listing, with the same
  price, bedrooms and size but different links, gives a run that returns both records, and
  both carry a URL.
\<close>

theorem same_page_keys_distinct_counterexample:
  "map_option (map key_of) (scrape_area two_page_site sea_point_args)
     = Some [(Some 1200000, Some 2, Some 85), (Some 1200000, Some 2, Some 85)]
   \<and> map_option (map url) (scrape_area two_page_site sea_point_args)
     = Some [Some ''https://www.property24.com/for-sale/sea-point/1'',
             Some ''https://www.property24.com/for-sale/sea-point/2'']"
  using two_page_keys
  by (simp add: scrape_area_def two_page_run after_second_page_def) (simp add: twin_record_def)

lemma urlless_filter:
  "subseq c pp \<Longrightarrow> distinct pp \<Longrightarrow> (\<forall>p\<in>set pp. P p \<longrightarrow> p \<in> set c) \<Longrightarrow>
   filter P pp = filter P c"
proof (induction rule: list_emb.induct)
  case (list_emb_Nil ys)
  then show ?case by (auto simp: filter_empty_conv)
next
  case (list_emb_Cons xs ys y)
  have "\<not> P y"
  proof
    assume "P y"
    with list_emb_Cons.prems have "y \<in> set xs" by simp
    with list_emb_Cons.hyps obtain z where "z \<in> set ys" "y = z" by (rule list_emb_set)
    with list_emb_Cons.prems show False by simp
  qed
  moreover from list_emb_Cons.prems have "distinct ys"
    and "\<forall>p\<in>set ys. P p \<longrightarrow> p \<in> set xs" by simp_all
  ultimately show ?case using list_emb_Cons.IH by simp
next
  case (list_emb_Cons2 x y xs ys)
  from list_emb_Cons2.prems list_emb_Cons2.hyps(1) have "distinct ys"
    and "\<forall>p\<in>set ys. P p \<longrightarrow> p \<in> set xs" by auto
  with list_emb_Cons2.IH list_emb_Cons2.hyps(1) show ?case by simp
qed

lemma mixed_page_output:
  "extract_all_properties_from_page mixed_page ''Sea Point'' False
     = [twin_record ''https://www.property24.com/for-sale/sea-point/1'', urlless_record]"
  by code_simp

lemma mixed_page_discovered:
  "map key_of (discovered mixed_page ''Sea Point'' False)
     = [(Some 1200000, Some 2, Some 85), (Some 1200000, Some 2, Some 85),
        (Some 2500000, Some 3, Some 120)]"
  by code_simp

lemma mixed_step1:
  "scrape_step mixed_site sea_point_args ''sea-point'' 11021 initial_state
     = Fetching mixed_after_first"
proof -
  have "scrape_step mixed_site sea_point_args ''sea-point'' 11021 initial_state =
     Fetching (initial_state\<lparr>requests := requests initial_state
                   @ [page_url (transaction_type sea_point_args) ''sea-point'' 11021
                        (page initial_state)],
                  seen_urls := {''https://www.property24.com/for-sale/sea-point/1''},
                  all_properties := all_properties initial_state
                     @ [twin_record ''https://www.property24.com/for-sale/sea-point/1'',
                        urlless_record],
                  consecutive_empty_pages := 0,
                  page := page initial_state + 1\<rparr>)"
    by (rule scrape_step_new_page [where soup = mixed_page])
       (simp_all add: initial_state_def sea_point_args_def ceiling_reached_def sea_point_urls
          mixed_site_def mixed_page_output twin_record_def urlless_record_def Let_def)
  then show ?thesis
    by (simp add: initial_state_def mixed_after_first_def sea_point_args_def sea_point_urls)
qed

lemma mixed_step2:
  "scrape_step mixed_site sea_point_args ''sea-point'' 11021 mixed_after_first
     = Fetching mixed_after_second"
proof -
  have "scrape_step mixed_site sea_point_args ''sea-point'' 11021 mixed_after_first =
     Fetching (mixed_after_first\<lparr>requests := requests mixed_after_first
                   @ [page_url (transaction_type sea_point_args) ''sea-point'' 11021
                        (page mixed_after_first)],
                  seen_urls := {''https://www.property24.com/for-sale/sea-point/1''},
                  all_properties := all_properties mixed_after_first @ [urlless_record],
                  consecutive_empty_pages := 0,
                  page := page mixed_after_first + 1\<rparr>)"
    by (rule scrape_step_new_page [where soup = mixed_page])
       (simp_all add: mixed_after_first_def sea_point_args_def ceiling_reached_def sea_point_urls
          mixed_site_def mixed_page_output twin_record_def urlless_record_def first_url_def
          Let_def)
  then show ?thesis
    by (simp add: mixed_after_first_def mixed_after_second_def sea_point_args_def sea_point_urls)
qed

lemma mixed_step3:
  "scrape_step mixed_site sea_point_args ''sea-point'' 11021 mixed_after_second
     = Stopped mixed_final"
proof -
  have "scrape_step mixed_site sea_point_args ''sea-point'' 11021 mixed_after_second =
     Stopped (mixed_after_second\<lparr>requests := requests mixed_after_second
                   @ [page_url (transaction_type sea_point_args) ''sea-point'' 11021
                        (page mixed_after_second)]\<rparr>)"
    by (rule scrape_step_failed [where status = 404 and soup = "\<lambda>selector. []"])
       (simp_all add: mixed_after_second_def sea_point_args_def ceiling_reached_def
          sea_point_urls mixed_site_def first_url_def)
  then show ?thesis
    by (simp add: mixed_after_second_def mixed_final_def sea_point_args_def sea_point_urls)
qed

lemma mixed_run: "scrape_area_run mixed_site sea_point_args = Some mixed_final"
proof -
  have "scrape_area_run mixed_site sea_point_args
        = scrape_loop mixed_site sea_point_args ''sea-point'' 11021 initial_state"
    by (simp add: scrape_area_run_def sea_point_args_def sea_point_code)
  also have "\<dots> = scrape_loop mixed_site sea_point_args ''sea-point'' 11021 mixed_after_first"
    by (rule scrape_loop_fetching [OF mixed_step1])
  also have "\<dots> = scrape_loop mixed_site sea_point_args ''sea-point'' 11021 mixed_after_second"
    by (rule scrape_loop_fetching [OF mixed_step2])
  also note scrape_loop_stopped [OF mixed_step3]
  finally show ?thesis .
qed

text \<open>
  The run on \<open>mixed_site\<close> exercises every part of the statement. Its page shows two
  listings with the same key and a third without a link; the Page Assembler drops the
  second twin, both requests keep the link-less record, and the second request drops the
  record whose link the first one emitted. The records returned split into one chunk per
  request, each a subsequence of that page's output with distinct keys and with all of the
  page's link-less records.
\<close>

theorem same_page_keys_distinct_witness:
  "scrape_area_run mixed_site sea_point_args = Some mixed_final
   \<and> map key_of (discovered mixed_page ''Sea Point'' False)
       = [(Some 1200000, Some 2, Some 85), (Some 1200000, Some 2, Some 85),
          (Some 2500000, Some 3, Some 120)]
   \<and> page_properties mixed_site sea_point_args first_url
       = [twin_record ''https://www.property24.com/for-sale/sea-point/1'', urlless_record]
   \<and> url urlless_record = None
   \<and> all_properties mixed_final
       = [twin_record ''https://www.property24.com/for-sale/sea-point/1'',
          urlless_record, urlless_record]
   \<and> (\<exists>chunks. all_properties mixed_final = concat chunks
         \<and> list_all2 (\<lambda>c u. subseq c (page_properties mixed_site sea_point_args u)
                         \<and> distinct (map key_of c)
                         \<and> filter (\<lambda>p. url p = None) (page_properties mixed_site sea_point_args u)
                             = filter (\<lambda>p. url p = None) c)
              chunks (requests mixed_final))"
proof -
  from same_page_keys_distinct [OF mixed_run] obtain chunks where
    c: "all_properties mixed_final = concat chunks"
    and l: "list_all2 (\<lambda>c u. subseq c (page_properties mixed_site sea_point_args u)
                     \<and> distinct (map key_of c)
                     \<and> (\<forall>p\<in>set (page_properties mixed_site sea_point_args u).
                           url p = None \<longrightarrow> p \<in> set c))
          chunks (requests mixed_final)"
    by blast
  have "list_all2 (\<lambda>c u. subseq c (page_properties mixed_site sea_point_args u)
                         \<and> distinct (map key_of c)
                         \<and> filter (\<lambda>p. url p = None) (page_properties mixed_site sea_point_args u)
                             = filter (\<lambda>p. url p = None) c)
              chunks (requests mixed_final)"
  proof (rule list_all2_mono [OF l])
    fix c u
    assume a: "subseq c (page_properties mixed_site sea_point_args u)
                     \<and> distinct (map key_of c)
                     \<and> (\<forall>p\<in>set (page_properties mixed_site sea_point_args u).
                           url p = None \<longrightarrow> p \<in> set c)"
    have "distinct (page_properties mixed_site sea_point_args u)"
      using page_properties_keys [of mixed_site sea_point_args u] by (simp add: distinct_map)
    with a have "filter (\<lambda>p. url p = None) (page_properties mixed_site sea_point_args u)
                 = filter (\<lambda>p. url p = None) c"
      by (intro urlless_filter) simp_all
    with a show "subseq c (page_properties mixed_site sea_point_args u)
                         \<and> distinct (map key_of c)
                         \<and> filter (\<lambda>p. url p = None) (page_properties mixed_site sea_point_args u)
                             = filter (\<lambda>p. url p = None) c"
      by simp
  qed
  with c have e: "\<exists>chunks. all_properties mixed_final = concat chunks
         \<and> list_all2 (\<lambda>c u. subseq c (page_properties mixed_site sea_point_args u)
                         \<and> distinct (map key_of c)
                         \<and> filter (\<lambda>p. url p = None) (page_properties mixed_site sea_point_args u)
                             = filter (\<lambda>p. url p = None) c)
              chunks (requests mixed_final)"
    by blast
  have p: "page_properties mixed_site sea_point_args first_url
       = [twin_record ''https://www.property24.com/for-sale/sea-point/1'', urlless_record]"
    by (simp add: page_properties_def mixed_site_def sea_point_args_def mixed_page_output)
  have u: "url urlless_record = None" by (simp add: urlless_record_def)
  have f: "all_properties mixed_final
       = [twin_record ''https://www.property24.com/for-sale/sea-point/1'',
          urlless_record, urlless_record]"
    by (simp add: mixed_final_def)
  from mixed_run mixed_page_discovered p u f e show ?thesis by blast
qed


text \<open>
  C7. From a state whose counter is zero, when the next two pages are fetched with success
  and neither yields a record that the cross-page step keeps, the loop returns after those
  two requests and makes no further one, whatever the page ceiling allows beyond them. A
  state whose counter has reached two stops the loop at once. A fetched page that yields at
  least one kept record leaves the counter at zero, and one that yields none adds one to it.
\<close>

theorem two_empty_pages_stop:
  "(consecutive_empty_pages st = 0
     \<and> \<not> ceiling_reached (max_pages args) (page st)
     \<and> \<not> ceiling_reached (max_pages args) (page st + 1)
     \<and> 0 \<le> delay args
     \<and> fetch (page_url (transaction_type args) an code (page st)) = Response 200 soup1
     \<and> fst (filter_duplicates
              (extract_all_properties_from_page soup1 (area_arg args) (extract_images_arg args))
              (seen_urls st) []) = []
     \<and> fetch (page_url (transaction_type args) an code (page st + 1)) = Response 200 soup2
     \<and> fst (filter_duplicates
              (extract_all_properties_from_page soup2 (area_arg args) (extract_images_arg args))
              (seen_urls st) []) = []
    \<longrightarrow> scrape_loop fetch args an code st
         = Some (st\<lparr>requests := requests st
                       @ [page_url (transaction_type args) an code (page st),
                          page_url (transaction_type args) an code (page st + 1)],
                     consecutive_empty_pages := 2,
                     page := page st + 2\<rparr>))
   \<and> (2 \<le> consecutive_empty_pages st \<longrightarrow> scrape_loop fetch args an code st = Some st)
   \<and> (consecutive_empty_pages st < 2
       \<and> \<not> ceiling_reached (max_pages args) (page st)
       \<and> fetch (page_url (transaction_type args) an code (page st)) = Response 200 soup
       \<and> fst (filter_duplicates
              (extract_all_properties_from_page soup (area_arg args) (extract_images_arg args))
              (seen_urls st) []) \<noteq> []
      \<longrightarrow> consecutive_empty_pages (state_of (scrape_step fetch args an code st)) = 0)
   \<and> (consecutive_empty_pages st < 2
       \<and> \<not> ceiling_reached (max_pages args) (page st)
       \<and> fetch (page_url (transaction_type args) an code (page st)) = Response 200 soup
       \<and> fst (filter_duplicates
              (extract_all_properties_from_page soup (area_arg args) (extract_images_arg args))
              (seen_urls st) []) = []
      \<longrightarrow> consecutive_empty_pages (state_of (scrape_step fetch args an code st))
            = consecutive_empty_pages st + 1)"
proof (intro conjI impI)
  assume "consecutive_empty_pages st < 2
       \<and> \<not> ceiling_reached (max_pages args) (page st)
       \<and> fetch (page_url (transaction_type args) an code (page st)) = Response 200 soup
       \<and> fst (filter_duplicates
              (extract_all_properties_from_page soup (area_arg args) (extract_images_arg args))
              (seen_urls st) []) = []"
  then show "consecutive_empty_pages (state_of (scrape_step fetch args an code st))
            = consecutive_empty_pages st + 1"
    by (simp add: scrape_step_def Let_def)
next
  assume "2 \<le> consecutive_empty_pages st"
  then show "scrape_loop fetch args an code st = Some st"
    by (intro scrape_loop_stopped scrape_step_stop)
next
  assume "consecutive_empty_pages st < 2
       \<and> \<not> ceiling_reached (max_pages args) (page st)
       \<and> fetch (page_url (transaction_type args) an code (page st)) = Response 200 soup
       \<and> fst (filter_duplicates
              (extract_all_properties_from_page soup (area_arg args) (extract_images_arg args))
              (seen_urls st) []) \<noteq> []"
  then show "consecutive_empty_pages (state_of (scrape_step fetch args an code st)) = 0"
    by (simp add: scrape_step_def Let_def)
next
  let ?u1 = "page_url (transaction_type args) an code (page st)"
  let ?u2 = "page_url (transaction_type args) an code (page st + 1)"
  let ?st1 = "st\<lparr>requests := requests st @ [?u1],
                  consecutive_empty_pages := consecutive_empty_pages st + 1,
                  page := page st + 1\<rparr>"
  let ?st2 = "st\<lparr>requests := requests st @ [?u1, ?u2],
                  consecutive_empty_pages := consecutive_empty_pages st + 2,
                  page := page st + 2\<rparr>"
  assume a: "consecutive_empty_pages st = 0
     \<and> \<not> ceiling_reached (max_pages args) (page st)
     \<and> \<not> ceiling_reached (max_pages args) (page st + 1)
     \<and> 0 \<le> delay args
     \<and> fetch ?u1 = Response 200 soup1
     \<and> fst (filter_duplicates
              (extract_all_properties_from_page soup1 (area_arg args) (extract_images_arg args))
              (seen_urls st) []) = []
     \<and> fetch ?u2 = Response 200 soup2
     \<and> fst (filter_duplicates
              (extract_all_properties_from_page soup2 (area_arg args) (extract_images_arg args))
              (seen_urls st) []) = []"
  have s1: "scrape_step fetch args an code st = Fetching ?st1"
    by (rule scrape_step_empty_page [where soup = soup1]) (use a in simp_all)
  have "scrape_step fetch args an code ?st1 =
      Fetching (?st1\<lparr>requests := requests ?st1
                    @ [page_url (transaction_type args) an code (page ?st1)],
                  consecutive_empty_pages := consecutive_empty_pages ?st1 + 1,
                  page := page ?st1 + 1\<rparr>)"
    by (rule scrape_step_empty_page [where soup = soup2]) (use a in simp_all)
  then have s2: "scrape_step fetch args an code ?st1 = Fetching ?st2"
    by simp
  have s3: "scrape_step fetch args an code ?st2 = Stopped ?st2"
    by (rule scrape_step_stop) (use a in simp)
  have "scrape_loop fetch args an code st = scrape_loop fetch args an code ?st1"
    by (rule scrape_loop_fetching [OF s1])
  also have "\<dots> = scrape_loop fetch args an code ?st2"
    by (rule scrape_loop_fetching [OF s2])
  also have "\<dots> = Some ?st2"
    by (rule scrape_loop_stopped [OF s3])
  finally show "scrape_loop fetch args an code st
         = Some (st\<lparr>requests := requests st @ [?u1, ?u2],
                     consecutive_empty_pages := 2,
                     page := page st + 2\<rparr>)"
    using a by simp
qed

lemma same_page_nothing_new:
  "fst (filter_duplicates
          (extract_all_properties_from_page page_a (area_arg sea_point_args)
             (extract_images_arg sea_point_args))
          (seen_urls after_first_page) []) = []"
  by (simp add: sea_point_args_def page_a_output after_first_page_def twin_record_def Let_def)

lemma same_page_something_new:
  "fst (filter_duplicates
          (extract_all_properties_from_page page_a (area_arg sea_point_args)
             (extract_images_arg sea_point_args))
          (seen_urls initial_state) []) \<noteq> []"
  by (simp add: sea_point_args_def page_a_output initial_state_def twin_record_def Let_def)

theorem two_empty_pages_stop_witness:
  "scrape_step same_page_site sea_point_args ''sea-point'' 11021 initial_state
     = Fetching after_first_page
   \<and> \<not> ceiling_reached (max_pages sea_point_args) 4
   \<and> scrape_loop same_page_site sea_point_args ''sea-point'' 11021 after_first_page
     = Some (after_first_page\<lparr>requests := [first_url, first_url @ ''?Page=2'',
                                             first_url @ ''?Page=3''],
                               consecutive_empty_pages := 2,
                               page := 4\<rparr>)
   \<and> consecutive_empty_pages
        (state_of (scrape_step same_page_site sea_point_args ''sea-point'' 11021 initial_state)) = 0"
proof -
  have h: "consecutive_empty_pages after_first_page = 0"
    "\<not> ceiling_reached (max_pages sea_point_args) (page after_first_page)"
    "\<not> ceiling_reached (max_pages sea_point_args) (page after_first_page + 1)"
    "\<not> ceiling_reached (max_pages sea_point_args) 4"
    "0 \<le> delay sea_point_args"
    "consecutive_empty_pages initial_state < 2"
    "\<not> ceiling_reached (max_pages sea_point_args) (page initial_state)"
    by (simp_all add: after_first_page_def initial_state_def sea_point_args_def ceiling_reached_def)
  have f: "same_page_site u = Response 200 page_a" for u
    by (simp add: same_page_site_def)
  note t = two_empty_pages_stop [of after_first_page sea_point_args same_page_site
      "''sea-point''" 11021 page_a page_a page_a]
  have l: "scrape_loop same_page_site sea_point_args ''sea-point'' 11021 after_first_page
         = Some (after_first_page\<lparr>requests := requests after_first_page
                       @ [page_url (transaction_type sea_point_args) ''sea-point'' 11021
                            (page after_first_page),
                          page_url (transaction_type sea_point_args) ''sea-point'' 11021
                            (page after_first_page + 1)],
                     consecutive_empty_pages := 2,
                     page := page after_first_page + 2\<rparr>)"
    by (rule t [THEN conjunct1, rule_format]) (simp add: h f same_page_nothing_new)
  note t0 = two_empty_pages_stop [of initial_state sea_point_args same_page_site
      "''sea-point''" 11021 page_a page_a page_a]
  have r: "consecutive_empty_pages
        (state_of (scrape_step same_page_site sea_point_args ''sea-point'' 11021 initial_state)) = 0"
    by (rule t0 [THEN conjunct2, THEN conjunct2, THEN conjunct1, rule_format])
       (simp add: h f same_page_something_new)
  have s: "scrape_step same_page_site sea_point_args ''sea-point'' 11021 initial_state
     = Fetching after_first_page"
  proof -
    have "scrape_step same_page_site sea_point_args ''sea-point'' 11021 initial_state =
       Fetching (initial_state\<lparr>requests := requests initial_state
                   @ [page_url (transaction_type sea_point_args) ''sea-point'' 11021
                        (page initial_state)],
                  seen_urls := {''https://www.property24.com/for-sale/sea-point/1''},
                  all_properties := all_properties initial_state
                     @ [twin_record ''https://www.property24.com/for-sale/sea-point/1''],
                  consecutive_empty_pages := 0,
                  page := page initial_state + 1\<rparr>)"
      by (rule scrape_step_new_page [where soup = page_a])
         (simp_all add: initial_state_def sea_point_args_def ceiling_reached_def
            same_page_site_def page_a_output twin_record_def Let_def)
    then show ?thesis
      by (simp add: initial_state_def after_first_page_def sea_point_args_def sea_point_urls)
  qed
  from l have "scrape_loop same_page_site sea_point_args ''sea-point'' 11021 after_first_page
     = Some (after_first_page\<lparr>requests := [first_url, first_url @ ''?Page=2'',
                                             first_url @ ''?Page=3''],
                               consecutive_empty_pages := 2,
                               page := 4\<rparr>)"
    by (simp add: after_first_page_def sea_point_args_def sea_point_urls)
  with s r h(4) show ?thesis by blast
qed

end
